theory Spec2Isabelle
  imports Complex_Main
begin

section \<open>Data model\<close>

text \<open>
  The module \<^verbatim>\<open>surfdist/analysis.py\<close> wraps an external geodesic solver (\<^verbatim>\<open>gdist\<close>)
  with the bookkeeping between full-surface and cortex-local vertex numbering.

  A surface is the tuple \<^verbatim>\<open>(vertices, triangles)\<close>; a vertex is a coordinate triple, a
  triangle a triple of vertex indices. Vertex indices (cortex mask, source nodes) are
  natural numbers. Distances are reals, so a NaN is not a distance here. The analysis
  layer only compares distances (\<^verbatim>\<open>argsort\<close>, \<^verbatim>\<open>min\<close>) and never computes with them,
  except for the cast to float32 in \<^verbatim>\<open>dist_calc_pairwise\<close>.

  Every exception of the code is a value of \<open>error\<close>; a function that can raise returns
  \<open>error + 'a\<close>, with \<open>Inl\<close> the exception. Exceptions raised inside the external
  solver are not modelled.
\<close>

datatype error = InvalidMaskError | OutOfCortexError | IndexError | ValueError

type_synonym vertex = "real \<times> real \<times> real"
type_synonym triangle = "nat \<times> nat \<times> nat"
type_synonym surf = "vertex list \<times> triangle list"

text \<open>
  A sparse matrix is its shape and the list of its stored entries
  \<open>((row, column), value)\<close>.
\<close>

record sparse =
  shape :: "nat \<times> nat"
  entries :: "((nat \<times> nat) \<times> real) list"

section \<open>Helpers of \<^verbatim>\<open>surfdist/utils.py\<close> and \<^verbatim>\<open>surfdist/load.py\<close>\<close>

text \<open>
  \<^verbatim>\<open>analysis.py\<close> imports \<^verbatim>\<open>surf_keep_cortex\<close>, \<^verbatim>\<open>translate_src\<close>, \<^verbatim>\<open>recort\<close> and
  \<^verbatim>\<open>recort2d\<close> from \<^verbatim>\<open>.utils\<close>, and the label readers from \<^verbatim>\<open>.load\<close>. Neither module is
  among the source files. They are modelled from the specification (Index Translator,
  Result Projector, label reader).
\<close>

text \<open>
  Modelled from the spec: the validity of a cortex mask, which \<^verbatim>\<open>surf_keep_cortex\<close> of the
  missing \<^verbatim>\<open>utils.py\<close> has to check. The mask is refused when it ``is empty, contains
  duplicate or out-of-range indices, or is not sorted''.
\<close>

definition valid_mask :: "nat \<Rightarrow> nat list \<Rightarrow> bool" where
  "valid_mask n cortex \<longleftrightarrow>
     cortex \<noteq> [] \<and> distinct cortex \<and> list_all (\<lambda>v. v < n) cortex \<and> sorted cortex"

text \<open>
  Modelled from the spec: the mask's inverse lookup (full-surface index to cortex-local
  index, ``undefined/absent for non-cortex vertices''), used by the helpers of the missing
  \<^verbatim>\<open>utils.py\<close>. Local index \<open>i\<close> corresponds to full-surface index \<open>cortex ! i\<close>.
\<close>

fun local_index :: "nat list \<Rightarrow> nat \<Rightarrow> nat option" where
  "local_index [] v = None"
| "local_index (c # cs) v =
     (if c = v then Some 0 else map_option Suc (local_index cs v))"

text \<open>
  Modelled from the spec: the triangle filter of \<^verbatim>\<open>surf_keep_cortex\<close> (missing
  \<^verbatim>\<open>utils.py\<close>): ``only triangles whose three vertices are all in C are retained'',
  ``remapped to local indices''.
\<close>

definition keep_triangle :: "nat list \<Rightarrow> triangle \<Rightarrow> triangle option" where
  "keep_triangle cortex t =
     (case t of (a, b, c) \<Rightarrow>
        (case local_index cortex a of None \<Rightarrow> None
         | Some i \<Rightarrow>
            (case local_index cortex b of None \<Rightarrow> None
             | Some j \<Rightarrow>
                (case local_index cortex c of None \<Rightarrow> None
                 | Some k \<Rightarrow> Some (i, j, k)))))"

text \<open>
  Modelled from the spec: \<^verbatim>\<open>surf_keep_cortex(surf, cortex)\<close> of the missing \<^verbatim>\<open>utils.py\<close>,
  the spec's \<^verbatim>\<open>restrict_to_cortex\<close>. It fails with \<^verbatim>\<open>InvalidMaskError\<close> on a malformed
  mask; otherwise it returns the vertex coordinates restricted to the mask, in the mask's
  order, and the retained triangles in local numbering.
\<close>

definition surf_keep_cortex :: "surf \<Rightarrow> nat list \<Rightarrow> error + (vertex list \<times> triangle list)" where
  "surf_keep_cortex surf cortex =
     (case surf of (vertices, triangles) \<Rightarrow>
        if \<not> valid_mask (length vertices) cortex then Inl InvalidMaskError
        else Inr (map (\<lambda>v. vertices ! v) cortex,
                  List.map_filter (keep_triangle cortex) triangles))"

text \<open>
  Modelled from the spec: \<^verbatim>\<open>translate_src(src, cortex)\<close> of the missing \<^verbatim>\<open>utils.py\<close>, the
  spec's \<^verbatim>\<open>translate_source\<close>. It maps each full-surface index to its cortex-local index
  and ``fails with \<^verbatim>\<open>OutOfCortexError\<close> if any input index is not present in mask''.
\<close>

fun translate_src :: "nat list \<Rightarrow> nat list \<Rightarrow> error + nat list" where
  "translate_src [] cortex = Inr []"
| "translate_src (v # vs) cortex =
     (case local_index cortex v of
        None \<Rightarrow> Inl OutOfCortexError
      | Some i \<Rightarrow>
         (case translate_src vs cortex of
            Inl e \<Rightarrow> Inl e
          | Inr js \<Rightarrow> Inr (i # js)))"

text \<open>
  Modelled from the spec: \<^verbatim>\<open>recort(input_data, surf, cortex)\<close> of the missing \<^verbatim>\<open>utils.py\<close>,
  the spec's \<^verbatim>\<open>project_vector\<close>. It ``scatters \<^verbatim>\<open>field[i]\<close> to full-surface position
  \<^verbatim>\<open>mask[i]\<close> for all \<^verbatim>\<open>i\<close>; all positions not in mask are set to 0'', and the output has
  the length of the full surface. The scatter is a sequence of writes into a vector of
  zeros.
\<close>

definition recort :: "'a::zero list \<Rightarrow> surf \<Rightarrow> nat list \<Rightarrow> 'a list" where
  "recort input_data surf cortex =
     fold (\<lambda>(v, x) data. data[v := x]) (zip cortex input_data)
       (replicate (length (fst surf)) 0)"

text \<open>
  Modelled from the spec: \<^verbatim>\<open>recort2d(input_data, surf, cortex)\<close> of the missing
  \<^verbatim>\<open>utils.py\<close>, the spec's \<^verbatim>\<open>project_matrix\<close>. It ``re-expresses each nonzero entry
  \<^verbatim>\<open>(i,j,v)\<close> of the cortex-local sparse matrix as \<^verbatim>\<open>(mask[i], mask[j], v)\<close> in an n x n
  sparse structure''.
\<close>

definition recort2d :: "sparse \<Rightarrow> surf \<Rightarrow> nat list \<Rightarrow> sparse" where
  "recort2d input_data surf cortex =
     \<lparr>shape = (length (fst surf), length (fst surf)),
      entries = map (\<lambda>((i, j), x). ((cortex ! i, cortex ! j), x))
                  (filter (\<lambda>(ij, x). x \<noteq> 0) (entries input_data))\<rparr>"

text \<open>
  Modelled from the spec: the label reader behind \<^verbatim>\<open>get_freesurfer_label\<close> and
  \<^verbatim>\<open>load_freesurfer_label\<close> of the missing \<^verbatim>\<open>load.py\<close>. ``Given a label collection
  identifier, returns (a) the set of full-surface vertex indices for a named label, and
  (b) the list of label names present.'' The collection is the data the two calls read.
\<close>

record label_collection =
  names :: "string list"
  members :: "string \<Rightarrow> nat list"

definition get_freesurfer_label :: "label_collection \<Rightarrow> string list" where
  "get_freesurfer_label labels = names labels"

definition load_freesurfer_label :: "label_collection \<Rightarrow> string \<Rightarrow> nat list" where
  "load_freesurfer_label labels roi = members labels roi"

section \<open>The external solver\<close>

text \<open>
  The geodesic solver \<^verbatim>\<open>gdist\<close> is an external library and a parameter of the model.
  \<open>geo vertices triangles sources i\<close> is the value the solver reports at vertex \<open>i\<close> of
  the mesh for the given source indices; \<^verbatim>\<open>gdist.compute_gdist\<close> returns one such value per
  vertex of the mesh it is given.
\<close>

type_synonym solver = "vertex list \<Rightarrow> triangle list \<Rightarrow> nat list \<Rightarrow> nat \<Rightarrow> real"

definition compute_gdist :: "solver \<Rightarrow> vertex list \<Rightarrow> triangle list \<Rightarrow> nat list \<Rightarrow> real list" where
  "compute_gdist geo vertices triangles source_indices =
     map (geo vertices triangles source_indices) [0..<length vertices]"


text \<open>
  \<^verbatim>\<open>gdist.local_gdist_matrix(vertices, triangles, max_distance)\<close> is the solver's bounded
  all-pairs query, a parameter as well. Its interface: an entry is stored only for a pair
  of vertices of the mesh whose distance is at most the bound, and it holds that
  distance.
\<close>

type_synonym pairwise_solver = "vertex list \<Rightarrow> triangle list \<Rightarrow> real \<Rightarrow> sparse"

definition pairwise_contract ::
  "pairwise_solver \<Rightarrow> (vertex list \<Rightarrow> triangle list \<Rightarrow> nat \<Rightarrow> nat \<Rightarrow> real) \<Rightarrow> bool" where
  "pairwise_contract local_gdist_matrix d \<longleftrightarrow>
     (\<forall>V T r i j x. ((i, j), x) \<in> set (entries (local_gdist_matrix V T r)) \<longrightarrow>
        i < length V \<and> j < length V \<and> x = d V T i j \<and> x \<le> r)"

section \<open>numpy\<close>

text \<open>
  \<^verbatim>\<open>np.argsort\<close> is a parameter too: \<open>argsort xs\<close> is the index array numpy returns for
  the one-dimensional array \<open>xs\<close>. Its interface promises the indices that sort the
  array: a permutation of \<open>0..<length xs\<close> along which the values ascend. The code calls
  it with the default \<^verbatim>\<open>kind\<close> (quicksort), which numpy documents as not stable, so the
  interface says nothing on the order of equal values.
\<close>

definition argsort_contract :: "(real list \<Rightarrow> nat list) \<Rightarrow> bool" where
  "argsort_contract argsort \<longleftrightarrow>
     (\<forall>xs. distinct (argsort xs) \<and> set (argsort xs) = {..<length xs} \<and>
           sorted (map (\<lambda>i. xs ! i) (argsort xs)))"

text \<open>
  \<^verbatim>\<open>np.argsort(dist_vals, axis=0)\<close> sorts every column of the two-dimensional array on its
  own: entry \<open>(r, j)\<close> of the result is entry \<open>r\<close> of the argsort of column \<open>j\<close>. The
  matrix is a list of rows; \<open>n\<close> is the number of columns.
\<close>

definition column :: "real list list \<Rightarrow> nat \<Rightarrow> real list" where
  "column m j = map (\<lambda>row. row ! j) m"

definition argsort_axis0 :: "(real list \<Rightarrow> nat list) \<Rightarrow> real list list \<Rightarrow> nat \<Rightarrow> nat list list" where
  "argsort_axis0 argsort m n =
     map (\<lambda>r. map (\<lambda>j. argsort (column m j) ! r) [0..<n]) [0..<length m]"

text \<open>
  \<^verbatim>\<open>np.min(a[:, idx], axis=1)\<close>: the minimum of every row of \<open>a\<close> over the columns \<open>idx\<close>.
  numpy raises \<^verbatim>\<open>ValueError\<close> when there is nothing to take the minimum of.
\<close>

definition min_axis1 :: "real list list \<Rightarrow> nat list \<Rightarrow> error + real list" where
  "min_axis1 a idx =
     (case idx of
        [] \<Rightarrow> Inl ValueError
      | j # js \<Rightarrow> Inr (map (\<lambda>row. fold min (map (\<lambda>v. row ! v) js) (row ! j)) a))"

text \<open>
  \<^verbatim>\<open>.astype(np.float32)\<close> on a sparse matrix rounds every stored value and keeps the
  positions; the rounding is a parameter of \<open>astype\<close>.
\<close>

definition astype :: "(real \<Rightarrow> real) \<Rightarrow> sparse \<Rightarrow> sparse" where
  "astype float32 m = m\<lparr>entries := map (\<lambda>(ij, x). (ij, float32 x)) (entries m)\<rparr>"

text \<open>
  The cast of a float64 value to float32 follows IEEE 754: the nearest float32 value,
  ties to the even significand. Around \<open>x\<close> the float32 values are the multiples of
  \<open>float32_step x\<close>: 24 significant bits from the binary exponent of \<open>x\<close>, and no exponent
  below \<open>-126\<close> (the subnormal range). \<open>np_float32\<close> is the cast wherever its result is
  finite; overflow to infinity, from \<open>2 ^ 128 - 2 ^ 103\<close> on, is outside the definition.
\<close>

definition round_half_even :: "real \<Rightarrow> int" where
  "round_half_even q =
     (let f = \<lfloor>q\<rfloor>
      in if q - of_int f < 1 / 2 then f
         else if 1 / 2 < q - of_int f then f + 1
         else if even f then f else f + 1)"

definition float32_step :: "real \<Rightarrow> real" where
  "float32_step x =
     2 powi ((if x = 0 then - 126 else max \<lfloor>log 2 \<bar>x\<bar>\<rfloor> (- 126)) - 23)"

definition np_float32 :: "real \<Rightarrow> real" where
  "np_float32 x =
     (if x = 0 then 0
      else of_int (round_half_even (x / float32_step x)) * float32_step x)"

section \<open>\<^verbatim>\<open>dist_calc\<close>\<close>

definition dist_calc :: "solver \<Rightarrow> surf \<Rightarrow> nat list \<Rightarrow> nat list \<Rightarrow> error + real list" where
  "dist_calc geo surf cortex source_nodes =
     (case surf_keep_cortex surf cortex of
        Inl e \<Rightarrow> Inl e
      | Inr (cortex_vertices, cortex_triangles) \<Rightarrow>
         (case translate_src source_nodes cortex of
            Inl e \<Rightarrow> Inl e
          | Inr translated_source_nodes \<Rightarrow>
             (let data = compute_gdist geo cortex_vertices cortex_triangles
                           translated_source_nodes
              in Inr (recort data surf cortex))))"

section \<open>\<^verbatim>\<open>dist_calc_pairwise\<close>\<close>

definition dist_calc_pairwise ::
  "pairwise_solver \<Rightarrow> (real \<Rightarrow> real) \<Rightarrow> surf \<Rightarrow> nat list \<Rightarrow> real \<Rightarrow> error + sparse" where
  "dist_calc_pairwise local_gdist_matrix float32 surf cortex maxdist =
     (case surf_keep_cortex surf cortex of
        Inl e \<Rightarrow> Inl e
      | Inr (cortex_vertices, cortex_triangles) \<Rightarrow>
         (let data = astype float32
                       (local_gdist_matrix cortex_vertices cortex_triangles maxdist)
          in Inr (recort2d data surf cortex)))"

section \<open>\<^verbatim>\<open>zone_calc\<close>\<close>

text \<open>
  The loop over the seed sets (and the first loop of \<^verbatim>\<open>dist_calc_matrix\<close>, which has the
  same body): each set of source nodes is translated and handed to the solver; the rows
  are collected in order, and the first exception ends the loop.
\<close>

fun dist_rows ::
  "solver \<Rightarrow> vertex list \<Rightarrow> triangle list \<Rightarrow> nat list \<Rightarrow> nat list list \<Rightarrow> error + real list list" where
  "dist_rows geo cortex_vertices cortex_triangles cortex [] = Inr []"
| "dist_rows geo cortex_vertices cortex_triangles cortex (s # ss) =
     (case translate_src s cortex of
        Inl e \<Rightarrow> Inl e
      | Inr translated_source_nodes \<Rightarrow>
         (case dist_rows geo cortex_vertices cortex_triangles cortex ss of
            Inl e \<Rightarrow> Inl e
          | Inr rows \<Rightarrow>
             Inr (compute_gdist geo cortex_vertices cortex_triangles
                    translated_source_nodes # rows)))"

text \<open>
  \<^verbatim>\<open>np.argsort(dist_vals, axis=0)[0, :] + 1\<close>: row 0 of the column-wise argsort, plus one.
  With no seed set the array has no row 0 and the indexing raises \<^verbatim>\<open>IndexError\<close>. The
  zone ids are written into a float vector by \<^verbatim>\<open>recort\<close>; they are whole numbers, kept
  as naturals here.
\<close>

definition zone_calc ::
  "solver \<Rightarrow> (real list \<Rightarrow> nat list) \<Rightarrow> surf \<Rightarrow> nat list \<Rightarrow> nat list list \<Rightarrow> error + nat list" where
  "zone_calc geo argsort surf cortex source_nodes =
     (case surf_keep_cortex surf cortex of
        Inl e \<Rightarrow> Inl e
      | Inr (cortex_vertices, cortex_triangles) \<Rightarrow>
         (case dist_rows geo cortex_vertices cortex_triangles cortex source_nodes of
            Inl e \<Rightarrow> Inl e
          | Inr dist_vals \<Rightarrow>
             (case argsort_axis0 argsort dist_vals (length cortex_vertices) of
                [] \<Rightarrow> Inl IndexError
              | first # rest \<Rightarrow>
                 (let data = map (\<lambda>i. i + 1) first
                  in Inr (recort data surf cortex)))))"

section \<open>\<^verbatim>\<open>dist_calc_matrix\<close>\<close>

text \<open>
  The second loop: for each region, the minimum of every row of \<open>dist_roi\<close> over the
  region's translated vertices. Row \<open>a\<close> of the result therefore holds, in column \<open>b\<close>,
  the minimum of the distance field of region \<open>b\<close> over the vertices of region \<open>a\<close>.
\<close>

fun dist_mat_rows :: "real list list \<Rightarrow> nat list \<Rightarrow> nat list list \<Rightarrow> error + real list list" where
  "dist_mat_rows dist_roi cortex [] = Inr []"
| "dist_mat_rows dist_roi cortex (s # ss) =
     (case translate_src s cortex of
        Inl e \<Rightarrow> Inl e
      | Inr translated_source_nodes \<Rightarrow>
         (case min_axis1 dist_roi translated_source_nodes of
            Inl e \<Rightarrow> Inl e
          | Inr row \<Rightarrow>
             (case dist_mat_rows dist_roi cortex ss of
                Inl e \<Rightarrow> Inl e
              | Inr rows \<Rightarrow> Inr (row # rows))))"

text \<open>
  The default of the parameter \<^verbatim>\<open>exceptions\<close>; \<open>None\<close> stands for a call that leaves the
  parameter out. The parameter \<^verbatim>\<open>verbose\<close> only prints and is left out.
\<close>

definition default_exceptions :: "string list" where
  "default_exceptions = [''Unknown'', ''Medial_wall'']"

definition exceptions_or_default :: "string list option \<Rightarrow> string list" where
  "exceptions_or_default exceptions_arg =
     (case exceptions_arg of None \<Rightarrow> default_exceptions | Some e \<Rightarrow> e)"

definition dist_calc_matrix ::
  "solver \<Rightarrow> surf \<Rightarrow> nat list \<Rightarrow> label_collection \<Rightarrow> string list option \<Rightarrow>
   error + (real list list \<times> string list)" where
  "dist_calc_matrix geo surf cortex labels exceptions_arg =
     (let exceptions = exceptions_or_default exceptions_arg
      in case surf_keep_cortex surf cortex of
        Inl e \<Rightarrow> Inl e
      | Inr (cortex_vertices, cortex_triangles) \<Rightarrow>
         (let label_list = get_freesurfer_label labels;
              rs = filter (\<lambda>r. label_list ! r \<notin> set exceptions) [0..<length label_list];
              rois = map (\<lambda>r. label_list ! r) rs
          in case dist_rows geo cortex_vertices cortex_triangles cortex
                    (map (load_freesurfer_label labels) rois) of
               Inl e \<Rightarrow> Inl e
             | Inr dist_roi \<Rightarrow>
                (case dist_mat_rows dist_roi cortex
                        (map (load_freesurfer_label labels) rois) of
                   Inl e \<Rightarrow> Inl e
                 | Inr dist_mat \<Rightarrow> Inr (dist_mat, rois))))"

section \<open>Instances\<close>

text \<open>
  A sort that meets the interface of \<^verbatim>\<open>np.argsort\<close>: the stable one (equal values keep
  the order of their indices).
\<close>

definition argsort_stable :: "real list \<Rightarrow> nat list" where
  "argsort_stable xs = sort_key (\<lambda>i. xs ! i) [0..<length xs]"

text \<open>
  A bounded all-pairs solver that meets the interface of \<^verbatim>\<open>local_gdist_matrix\<close> for a
  given table of distances: it stores every pair of distinct vertices within the bound.
\<close>

definition bounded_pairs :: "(nat \<Rightarrow> nat \<Rightarrow> real) \<Rightarrow> pairwise_solver" where
  "bounded_pairs d V T r =
     \<lparr>shape = (length V, length V),
      entries = concat (map (\<lambda>i. map (\<lambda>j. ((i, j), d i j))
                                  (filter (\<lambda>j. j \<noteq> i \<and> d i j \<le> r) [0..<length V]))
                         [0..<length V])\<rparr>"

text \<open>
  A small mesh. Four vertices in the plane: \<open>v0 = (0,0,0)\<close>, \<open>v1 = (3,-4,0)\<close>,
  \<open>v2 = (6,0,0)\<close> and \<open>v3 = (3,4,0)\<close>, with the triangles \<open>(v0,v2,v3)\<close> and \<open>(v0,v1,v2)\<close>.
  The cortex is \<open>v0, v2, v3\<close>; \<open>v1\<close> stands for the medial wall. The restricted mesh is
  the single flat triangle with sides 6, 5 and 5, on which the geodesic distance is the
  Euclidean one: \<open>tri_dist\<close> tabulates it in local numbering, and \<open>tri_geo\<close> is the
  solver's answer on it, the minimum distance to any source. The label collection has
  two regions besides the excluded ones: \<open>A = {v0}\<close> and \<open>B = {v2, v3}\<close>.
\<close>

definition tri_surf :: surf where
  "tri_surf = ([(0, 0, 0), (3, -4, 0), (6, 0, 0), (3, 4, 0)], [(0, 2, 3), (0, 1, 2)])"

definition tri_cortex :: "nat list" where
  "tri_cortex = [0, 2, 3]"

definition tri_dist :: "nat \<Rightarrow> nat \<Rightarrow> real" where
  "tri_dist i j = (if i = j then 0 else if i + j = 1 then 6 else 5)"

definition tri_geo :: solver where
  "tri_geo vertices triangles source_indices i =
     Min ((\<lambda>s. tri_dist s i) ` set source_indices)"

definition tri_labels :: label_collection where
  "tri_labels =
     \<lparr>names = [''Unknown'', ''A'', ''Medial_wall'', ''B''],
      members = (\<lambda>name. if name = ''A'' then [0] else if name = ''B'' then [2, 3]
                         else if name = ''Medial_wall'' then [1] else [])\<rparr>"

text \<open>
  A flat right triangle with sides \<open>3s\<close>, \<open>4s\<close> and \<open>5s\<close> for \<open>s = 1 + 1 / 2 ^ 24\<close>:
  \<open>v0 = (0,0,0)\<close>, \<open>v1 = (3s,0,0)\<close>, \<open>v2 = (0,4s,0)\<close>. All three lengths are float64
  values; \<open>3s = 50331651 / 2 ^ 24\<close> needs 26 significant bits and is not a float32
  value. \<open>edge_dist\<close> tabulates the distances.
\<close>

definition edge_surf :: surf where
  "edge_surf =
     ([(0, 0, 0), (50331651 / 16777216, 0, 0), (0, 16777217 / 4194304, 0)], [(0, 1, 2)])"

definition edge_dist :: "nat \<Rightarrow> nat \<Rightarrow> real" where
  "edge_dist i j =
     (if i = j then 0
      else if i + j = 1 then 50331651 / 16777216
      else if i + j = 2 then 16777217 / 4194304
      else 83886085 / 16777216)"




section \<open>Properties of the helpers\<close>

lemma local_index_None: "local_index cortex v = None \<longleftrightarrow> v \<notin> set cortex"
  by (induction cortex) auto

lemma local_index_Some:
  "local_index cortex v = Some i \<Longrightarrow> i < length cortex \<and> cortex ! i = v"
  by (induction cortex arbitrary: i) (auto split: if_splits)

lemma local_index_nth:
  "distinct cortex \<Longrightarrow> i < length cortex \<Longrightarrow> local_index cortex (cortex ! i) = Some i"
proof (induction cortex arbitrary: i)
  case Nil
  then show ?case by simp
next
  case (Cons c cs)
  show ?case
  proof (cases i)
    case 0
    then show ?thesis by simp
  next
    case (Suc j)
    with Cons.prems have "cs ! j \<in> set cs" "c \<notin> set cs" "j < length cs" "distinct cs"
      by auto
    with Cons.IH [of j] Suc show ?thesis by auto
  qed
qed

lemma translate_src_out:
  "v \<in> set src \<Longrightarrow> v \<notin> set cortex \<Longrightarrow> translate_src src cortex = Inl OutOfCortexError"
proof (induction src)
  case Nil
  then show ?case by simp
next
  case (Cons u us)
  show ?case
  proof (cases "local_index cortex u")
    case None
    then show ?thesis by simp
  next
    case (Some i)
    with Cons.prems have "v \<in> set us"
      by (auto simp: local_index_None [symmetric])
    with Cons.IH Cons.prems Some show ?thesis by simp
  qed
qed

lemma translate_src_in:
  "set src \<subseteq> set cortex \<Longrightarrow>
   translate_src src cortex = Inr (map (\<lambda>v. the (local_index cortex v)) src)"
proof (induction src)
  case Nil
  then show ?case by simp
next
  case (Cons u us)
  then obtain i where "local_index cortex u = Some i"
    using local_index_None [of cortex u] by (cases "local_index cortex u") auto
  with Cons show ?case by simp
qed

lemma translate_src_Inr:
  "translate_src src cortex = Inr js \<Longrightarrow>
   set src \<subseteq> set cortex \<and> js = map (\<lambda>v. the (local_index cortex v)) src"
proof -
  assume a: "translate_src src cortex = Inr js"
  have "set src \<subseteq> set cortex"
  proof
    fix v assume "v \<in> set src"
    then show "v \<in> set cortex"
      using translate_src_out [of v src cortex] a by auto
  qed
  then show ?thesis using translate_src_in [of src cortex] a by simp
qed

lemma translate_src_error:
  "translate_src src cortex = Inl e \<Longrightarrow> e = OutOfCortexError"
  by (induction src arbitrary: e) (auto split: option.splits sum.splits)

lemma translate_src_bound:
  assumes "translate_src src cortex = Inr t"
  shows "set t \<subseteq> {..<length cortex}"
proof
  fix i assume "i \<in> set t"
  with translate_src_Inr [OF assms] obtain v where
    v: "v \<in> set cortex" "i = the (local_index cortex v)"
    by auto
  from v(1) obtain j where "local_index cortex v = Some j"
    using local_index_None [of cortex v] by (cases "local_index cortex v") auto
  with v(2) local_index_Some [of cortex v j] show "i \<in> {..<length cortex}"
    by simp
qed

lemma length_scatter:
  "length (fold (\<lambda>(v, x) data. data[v := x]) ps xs) = length xs"
  by (induction ps arbitrary: xs) auto

lemma scatter_other:
  "v \<notin> fst ` set ps \<Longrightarrow> fold (\<lambda>(v, x) data. data[v := x]) ps xs ! v = xs ! v"
  by (induction ps arbitrary: xs) auto

lemma scatter_hit:
  "distinct (map fst ps) \<Longrightarrow> (v, x) \<in> set ps \<Longrightarrow> v < length xs \<Longrightarrow>
   fold (\<lambda>(v, x) data. data[v := x]) ps xs ! v = x"
proof (induction ps arbitrary: xs)
  case Nil
  then show ?case by simp
next
  case (Cons p ps)
  show ?case
  proof (cases "p = (v, x)")
    case True
    with Cons.prems have "v \<notin> fst ` set ps" by auto
    with True Cons.prems(3) show ?thesis by (simp add: scatter_other)
  next
    case False
    with Cons.prems have "(v, x) \<in> set ps" "distinct (map fst ps)" by auto
    with Cons.IH [of "xs[fst p := snd p]"] Cons.prems(3) show ?thesis
      by (simp add: case_prod_beta)
  qed
qed

lemma length_recort: "length (recort f surf cortex) = length (fst surf)"
  by (simp add: recort_def length_scatter)

lemma recort_outside:
  "v \<notin> set cortex \<Longrightarrow> v < length (fst surf) \<Longrightarrow> recort f surf cortex ! v = 0"
proof -
  assume a: "v \<notin> set cortex" and b: "v < length (fst surf)"
  have "v \<notin> fst ` set (zip cortex f)"
    using a by (auto dest: set_zip_leftD)
  then show ?thesis using b by (simp add: recort_def scatter_other)
qed

lemma recort_inside:
  assumes "distinct cortex" "list_all (\<lambda>v. v < length (fst surf)) cortex"
    "length f = length cortex" "i < length cortex"
  shows "recort f surf cortex ! (cortex ! i) = f ! i"
proof -
  have d: "distinct (map fst (zip cortex f))"
    using assms(1,3) by simp
  have m: "(cortex ! i, f ! i) \<in> set (zip cortex f)"
    using assms(3,4) by (auto simp: set_zip)
  have "cortex ! i < length (fst surf)"
    using assms(2,4) by (simp add: list_all_length)
  then show ?thesis
    using scatter_hit [OF d m] by (simp add: recort_def)
qed

lemma surf_keep_cortex_invalid:
  "\<not> valid_mask (length (fst surf)) cortex \<Longrightarrow> surf_keep_cortex surf cortex = Inl InvalidMaskError"
  by (cases surf) (simp add: surf_keep_cortex_def)

lemma surf_keep_cortex_valid:
  "valid_mask (length (fst surf)) cortex \<Longrightarrow>
   surf_keep_cortex surf cortex =
     Inr (map (\<lambda>v. fst surf ! v) cortex, List.map_filter (keep_triangle cortex) (snd surf))"
  by (cases surf) (simp add: surf_keep_cortex_def)

lemma surf_keep_cortex_Inr:
  "surf_keep_cortex surf cortex = Inr (cv, ct) \<Longrightarrow>
   valid_mask (length (fst surf)) cortex \<and> length cv = length cortex"
  by (auto simp: surf_keep_cortex_def split: prod.splits if_splits)

lemma not_valid_mask:
  "cortex = [] \<or> \<not> distinct cortex \<or> (\<exists>v\<in>set cortex. length (fst surf) \<le> v) \<or> \<not> sorted cortex
   \<Longrightarrow> \<not> valid_mask (length (fst surf)) cortex"
  unfolding valid_mask_def list_all_iff by (meson leD)


section \<open>Properties of the iterations\<close>

lemma dist_rows_out:
  "s \<in> set ss \<Longrightarrow> v \<in> set s \<Longrightarrow> v \<notin> set cortex \<Longrightarrow>
   dist_rows geo cv ct cortex ss = Inl OutOfCortexError"
proof (induction ss)
  case Nil
  then show ?case by simp
next
  case (Cons t ts)
  show ?case
  proof (cases "translate_src t cortex")
    case (Inl e)
    then show ?thesis by (simp add: translate_src_error)
  next
    case (Inr js)
    then have "set t \<subseteq> set cortex" by (simp add: translate_src_Inr)
    with Cons.prems have "s \<in> set ts" by auto
    with Cons.IH Cons.prems Inr show ?thesis by simp
  qed
qed

lemma dist_rows_Inr:
  "dist_rows geo cv ct cortex ss = Inr rows \<Longrightarrow>
   \<exists>ts. length ts = length ss \<and>
        (\<forall>y<length ss. translate_src (ss ! y) cortex = Inr (ts ! y)) \<and>
        rows = map (compute_gdist geo cv ct) ts"
proof (induction ss arbitrary: rows)
  case Nil
  then show ?case by simp
next
  case (Cons s ss)
  from Cons.prems obtain t rest where
    t: "translate_src s cortex = Inr t" and
    r: "dist_rows geo cv ct cortex ss = Inr rest" and
    rows: "rows = compute_gdist geo cv ct t # rest"
    by (auto split: sum.splits)
  from Cons.IH [OF r] obtain ts where
    ts: "length ts = length ss"
      "\<forall>y<length ss. translate_src (ss ! y) cortex = Inr (ts ! y)"
      "rest = map (compute_gdist geo cv ct) ts"
    by blast
  have "\<forall>y<length (s # ss). translate_src ((s # ss) ! y) cortex = Inr ((t # ts) ! y)"
    using t ts(2) by (auto simp: nth_Cons split: nat.splits)
  with ts rows show ?case
    by (intro exI [of _ "t # ts"]) simp
qed

lemma dist_rows_returns:
  "\<forall>s\<in>set ss. set s \<subseteq> set cortex \<Longrightarrow>
   \<exists>rows. dist_rows geo cv ct cortex ss = Inr rows \<and> length rows = length ss"
proof (induction ss)
  case Nil
  then show ?case by simp
next
  case (Cons s ss)
  then have "set s \<subseteq> set cortex" by simp
  from translate_src_in [OF this] Cons show ?case by auto
qed


lemma min_axis1_Inr:
  assumes "min_axis1 a idx = Inr row"
  shows "idx \<noteq> [] \<and> row = map (\<lambda>r. Min ((\<lambda>v. r ! v) ` set idx)) a"
proof -
  from assms obtain j js where idx: "idx = j # js"
    and row: "row = map (\<lambda>r. fold min (map (\<lambda>v. r ! v) js) (r ! j)) a"
    by (auto simp: min_axis1_def split: list.splits)
  have "fold min (map (\<lambda>v. r ! v) js) (r ! j) = Min ((\<lambda>v. r ! v) ` set idx)" for r :: "real list"
    using Min.set_eq_fold [of "r ! j" "map (\<lambda>v. r ! v) js"] idx by simp
  with idx row show ?thesis by simp
qed

lemma dist_mat_rows_Inr:
  "dist_mat_rows dist_roi cortex ss = Inr rows \<Longrightarrow>
   \<exists>ts. length ts = length ss \<and>
        (\<forall>y<length ss. translate_src (ss ! y) cortex = Inr (ts ! y) \<and> ts ! y \<noteq> []) \<and>
        rows = map (\<lambda>t. map (\<lambda>r. Min ((\<lambda>v. r ! v) ` set t)) dist_roi) ts"
proof (induction ss arbitrary: rows)
  case Nil
  then show ?case by simp
next
  case (Cons s ss)
  from Cons.prems obtain t row rest where
    t: "translate_src s cortex = Inr t" and
    m: "min_axis1 dist_roi t = Inr row" and
    r: "dist_mat_rows dist_roi cortex ss = Inr rest" and
    rows: "rows = row # rest"
    by (auto split: sum.splits)
  from min_axis1_Inr [OF m] have ne: "t \<noteq> []"
    and row: "row = map (\<lambda>r. Min ((\<lambda>v. r ! v) ` set t)) dist_roi"
    by simp_all
  from Cons.IH [OF r] obtain ts where
    ts: "length ts = length ss"
      "\<forall>y<length ss. translate_src (ss ! y) cortex = Inr (ts ! y) \<and> ts ! y \<noteq> []"
      "rest = map (\<lambda>t. map (\<lambda>r. Min ((\<lambda>v. r ! v) ` set t)) dist_roi) ts"
    by blast
  have "\<forall>y<length (s # ss).
      translate_src ((s # ss) ! y) cortex = Inr ((t # ts) ! y) \<and> (t # ts) ! y \<noteq> []"
    using t ne ts(2) by (auto simp: nth_Cons split: nat.splits)
  with ts rows row show ?case
    by (intro exI [of _ "t # ts"]) simp
qed


section \<open>What each entry point returns\<close>

lemma dist_calc_invalid:
  "\<not> valid_mask (length (fst surf)) cortex \<Longrightarrow> dist_calc geo surf cortex src = Inl InvalidMaskError"
  by (simp add: dist_calc_def surf_keep_cortex_invalid)

lemma dist_calc_pairwise_invalid:
  "\<not> valid_mask (length (fst surf)) cortex \<Longrightarrow>
   dist_calc_pairwise lgm f32 surf cortex maxdist = Inl InvalidMaskError"
  by (simp add: dist_calc_pairwise_def surf_keep_cortex_invalid)

lemma zone_calc_invalid:
  "\<not> valid_mask (length (fst surf)) cortex \<Longrightarrow>
   zone_calc geo argsort surf cortex seeds = Inl InvalidMaskError"
  by (simp add: zone_calc_def surf_keep_cortex_invalid)

lemma dist_calc_matrix_invalid:
  "\<not> valid_mask (length (fst surf)) cortex \<Longrightarrow>
   dist_calc_matrix geo surf cortex labels exc = Inl InvalidMaskError"
  by (simp add: dist_calc_matrix_def surf_keep_cortex_invalid)

lemma dist_calc_Inr:
  "dist_calc geo surf cortex source_nodes = Inr out \<Longrightarrow>
   \<exists>data. length data = length cortex \<and> out = recort data surf cortex"
proof -
  assume a: "dist_calc geo surf cortex source_nodes = Inr out"
  then obtain cv ct t where
    k: "surf_keep_cortex surf cortex = Inr (cv, ct)" and
    d: "out = recort (compute_gdist geo cv ct t) surf cortex"
    by (auto simp: dist_calc_def split: sum.splits)
  have "length (compute_gdist geo cv ct t) = length cortex"
    using surf_keep_cortex_Inr [OF k] by (simp add: compute_gdist_def)
  with d show ?thesis by blast
qed

lemma zone_calc_Inr:
  assumes "zone_calc geo argsort surf cortex seeds = Inr zone"
  shows "\<exists>cv ct ts. surf_keep_cortex surf cortex = Inr (cv, ct) \<and>
           seeds \<noteq> [] \<and> length ts = length seeds \<and>
           (\<forall>y<length seeds. translate_src (seeds ! y) cortex = Inr (ts ! y)) \<and>
           zone = recort
             (map (\<lambda>j. argsort (column (map (compute_gdist geo cv ct) ts) j) ! 0 + 1)
                [0..<length cortex]) surf cortex"
proof -
  from assms obtain cv ct dist_vals first rest where
    k: "surf_keep_cortex surf cortex = Inr (cv, ct)" and
    r: "dist_rows geo cv ct cortex seeds = Inr dist_vals" and
    a: "argsort_axis0 argsort dist_vals (length cv) = first # rest" and
    z: "zone = recort (map (\<lambda>i. i + 1) first) surf cortex"
    by (auto simp: zone_calc_def split: sum.splits list.splits)
  from dist_rows_Inr [OF r] obtain ts where
    ts: "length ts = length seeds"
      "\<forall>y<length seeds. translate_src (seeds ! y) cortex = Inr (ts ! y)"
      "dist_vals = map (compute_gdist geo cv ct) ts"
    by blast
  have len: "length cv = length cortex"
    using surf_keep_cortex_Inr [OF k] by simp
  from a have ne: "dist_vals \<noteq> []"
    by (auto simp: argsort_axis0_def)
  then have "[0..<length dist_vals] = 0 # [1..<length dist_vals]"
    by (simp add: upt_conv_Cons)
  with a have "first = map (\<lambda>j. argsort (column dist_vals j) ! 0) [0..<length cv]"
    by (simp add: argsort_axis0_def)
  with z ts len have
    "zone = recort
       (map (\<lambda>j. argsort (column (map (compute_gdist geo cv ct) ts) j) ! 0 + 1)
          [0..<length cortex]) surf cortex"
    by (simp add: comp_def)
  moreover from ne ts have "seeds \<noteq> []" by auto
  ultimately show ?thesis using k ts(1,2) by blast
qed

lemma rois_filter:
  "map (\<lambda>r. label_list ! r) (filter (\<lambda>r. label_list ! r \<notin> set exceptions) [0..<length label_list])
   = filter (\<lambda>a. a \<notin> set exceptions) label_list"
proof -
  have "filter (\<lambda>a. a \<notin> set exceptions) (map ((!) label_list) [0..<length label_list])
      = map ((!) label_list)
          (filter (\<lambda>r. label_list ! r \<notin> set exceptions) [0..<length label_list])"
    by (simp add: filter_map comp_def)
  then show ?thesis by (simp add: map_nth)
qed

lemma dist_calc_matrix_unfold:
  "dist_calc_matrix geo surf cortex labels exceptions_arg =
     (case surf_keep_cortex surf cortex of
        Inl e \<Rightarrow> Inl e
      | Inr (cv, ct) \<Rightarrow>
         (case dist_rows geo cv ct cortex
                 (map (load_freesurfer_label labels)
                    (filter (\<lambda>a. a \<notin> set (exceptions_or_default exceptions_arg))
                       (get_freesurfer_label labels))) of
            Inl e \<Rightarrow> Inl e
          | Inr dist_roi \<Rightarrow>
             (case dist_mat_rows dist_roi cortex
                     (map (load_freesurfer_label labels)
                        (filter (\<lambda>a. a \<notin> set (exceptions_or_default exceptions_arg))
                           (get_freesurfer_label labels))) of
                Inl e \<Rightarrow> Inl e
              | Inr dist_mat \<Rightarrow>
                 Inr (dist_mat,
                      filter (\<lambda>a. a \<notin> set (exceptions_or_default exceptions_arg))
                        (get_freesurfer_label labels)))))"
  unfolding dist_calc_matrix_def Let_def rois_filter by (rule refl)

lemma dist_calc_matrix_out:
  assumes "valid_mask (length (fst surf)) cortex"
    "roi \<in> set (get_freesurfer_label labels)" "roi \<notin> set exceptions"
    "v \<in> set (load_freesurfer_label labels roi)" "v \<notin> set cortex"
  shows "dist_calc_matrix geo surf cortex labels (Some exceptions) = Inl OutOfCortexError"
proof -
  let ?rois = "filter (\<lambda>a. a \<notin> set exceptions) (get_freesurfer_label labels)"
  from assms(2,3) have "roi \<in> set ?rois" by simp
  then have "load_freesurfer_label labels roi \<in> set (map (load_freesurfer_label labels) ?rois)"
    unfolding set_map by (rule imageI)
  from dist_rows_out [OF this assms(4,5)] show ?thesis
    using assms(1)
    by (simp add: dist_calc_matrix_unfold surf_keep_cortex_valid exceptions_or_default_def)
qed

lemma dist_calc_matrix_steps:
  assumes "dist_calc_matrix geo surf cortex labels exceptions_arg = Inr (dist_mat, rois)"
  shows "\<exists>cv ct dist_roi.
    surf_keep_cortex surf cortex = Inr (cv, ct) \<and>
    rois = filter (\<lambda>a. a \<notin> set (exceptions_or_default exceptions_arg))
             (get_freesurfer_label labels) \<and>
    dist_rows geo cv ct cortex (map (load_freesurfer_label labels) rois) = Inr dist_roi \<and>
    dist_mat_rows dist_roi cortex (map (load_freesurfer_label labels) rois) = Inr dist_mat"
proof (cases "surf_keep_cortex surf cortex")
  case (Inl e)
  with assms show ?thesis by (simp add: dist_calc_matrix_unfold)
next
  case k: (Inr p)
  obtain cv ct where p: "p = (cv, ct)" by (cases p)
  let ?ss = "map (load_freesurfer_label labels)
    (filter (\<lambda>a. a \<notin> set (exceptions_or_default exceptions_arg)) (get_freesurfer_label labels))"
  show ?thesis
  proof (cases "dist_rows geo cv ct cortex ?ss")
    case (Inl e)
    with assms k p show ?thesis by (simp add: dist_calc_matrix_unfold)
  next
    case r: (Inr dist_roi)
    show ?thesis
    proof (cases "dist_mat_rows dist_roi cortex ?ss")
      case (Inl e)
      with assms k p r show ?thesis by (simp add: dist_calc_matrix_unfold)
    next
      case (Inr m)
      with assms k p r show ?thesis by (simp add: dist_calc_matrix_unfold)
    qed
  qed
qed

lemma dist_calc_matrix_Inr:
  assumes "dist_calc_matrix geo surf cortex labels exceptions_arg = Inr (dist_mat, rois)"
  shows "\<exists>cv ct ts. surf_keep_cortex surf cortex = Inr (cv, ct) \<and>
           rois = filter (\<lambda>a. a \<notin> set (exceptions_or_default exceptions_arg))
                    (get_freesurfer_label labels) \<and>
           length ts = length rois \<and>
           (\<forall>y<length rois.
              translate_src (load_freesurfer_label labels (rois ! y)) cortex = Inr (ts ! y) \<and>
              ts ! y \<noteq> []) \<and>
           dist_mat =
             map (\<lambda>t. map (\<lambda>s. Min ((\<lambda>v. compute_gdist geo cv ct s ! v) ` set t)) ts) ts"
proof -
  let ?ss = "map (load_freesurfer_label labels) rois"
  from dist_calc_matrix_steps [OF assms] obtain cv ct dist_roi where
    k: "surf_keep_cortex surf cortex = Inr (cv, ct)" and
    rois: "rois = filter (\<lambda>a. a \<notin> set (exceptions_or_default exceptions_arg))
             (get_freesurfer_label labels)" and
    r: "dist_rows geo cv ct cortex ?ss = Inr dist_roi" and
    m: "dist_mat_rows dist_roi cortex ?ss = Inr dist_mat"
    by blast
  from dist_rows_Inr [OF r] obtain ts where
    ts: "length ts = length ?ss"
      "\<forall>y<length ?ss. translate_src (?ss ! y) cortex = Inr (ts ! y)"
      "dist_roi = map (compute_gdist geo cv ct) ts"
    by blast
  from dist_mat_rows_Inr [OF m] obtain us where
    us: "length us = length ?ss"
      "\<forall>y<length ?ss. translate_src (?ss ! y) cortex = Inr (us ! y) \<and> us ! y \<noteq> []"
      "dist_mat = map (\<lambda>t. map (\<lambda>r. Min ((\<lambda>v. r ! v) ` set t)) dist_roi) us"
    by blast
  have "us = ts"
  proof (rule nth_equalityI)
    show "length us = length ts" using ts(1) us(1) by simp
    fix y assume "y < length us"
    with us(1) have y: "y < length ?ss" by simp
    with ts(2) have "translate_src (?ss ! y) cortex = Inr (ts ! y)" by blast
    moreover from us(2) y
    have "translate_src (?ss ! y) cortex = Inr (us ! y)" by blast
    ultimately show "us ! y = ts ! y" by simp
  qed
  with us ts(3) have
    mat: "dist_mat =
      map (\<lambda>t. map (\<lambda>s. Min ((\<lambda>v. compute_gdist geo cv ct s ! v) ` set t)) ts) ts"
    and tr: "\<forall>y<length ?ss. translate_src (?ss ! y) cortex = Inr (ts ! y) \<and> ts ! y \<noteq> []"
    by (simp_all add: comp_def)
  from tr have "\<forall>y<length rois.
      translate_src (load_freesurfer_label labels (rois ! y)) cortex = Inr (ts ! y) \<and>
      ts ! y \<noteq> []"
    by simp
  with k rois ts(1) mat show ?thesis
    by (intro exI [of _ cv] exI [of _ ct] exI [of _ ts]) simp
qed

lemma matrix_entry:
  assumes "dist_calc_matrix geo surf cortex labels exceptions_arg = Inr (dist_mat, rois)"
  shows "\<exists>cv ct ts. surf_keep_cortex surf cortex = Inr (cv, ct) \<and>
           rois = filter (\<lambda>a. a \<notin> set (exceptions_or_default exceptions_arg))
                    (get_freesurfer_label labels) \<and>
           length dist_mat = length rois \<and>
           length ts = length rois \<and>
           (\<forall>y<length rois.
              translate_src (load_freesurfer_label labels (rois ! y)) cortex = Inr (ts ! y) \<and>
              ts ! y \<noteq> [] \<and> set (ts ! y) \<subseteq> {..<length cv}) \<and>
           (\<forall>a<length rois. length (dist_mat ! a) = length rois \<and>
              (\<forall>b<length rois.
                 dist_mat ! a ! b
                 = Min ((\<lambda>v. compute_gdist geo cv ct (ts ! b) ! v) ` set (ts ! a))))"
proof -
  from dist_calc_matrix_Inr [OF assms] obtain cv ct ts where
    k: "surf_keep_cortex surf cortex = Inr (cv, ct)" and
    rois: "rois = filter (\<lambda>a. a \<notin> set (exceptions_or_default exceptions_arg))
                    (get_freesurfer_label labels)" and
    len: "length ts = length rois" and
    tr: "\<forall>y<length rois.
           translate_src (load_freesurfer_label labels (rois ! y)) cortex = Inr (ts ! y) \<and>
           ts ! y \<noteq> []" and
    mat: "dist_mat =
      map (\<lambda>t. map (\<lambda>s. Min ((\<lambda>v. compute_gdist geo cv ct s ! v) ` set t)) ts) ts"
    by blast
  from surf_keep_cortex_Inr [OF k] have lc: "length cv = length cortex" by simp
  have b: "\<forall>y<length rois.
      translate_src (load_freesurfer_label labels (rois ! y)) cortex = Inr (ts ! y) \<and>
      ts ! y \<noteq> [] \<and> set (ts ! y) \<subseteq> {..<length cv}"
    using tr translate_src_bound lc by metis
  have e: "\<forall>a<length rois. length (dist_mat ! a) = length rois \<and>
      (\<forall>b<length rois.
         dist_mat ! a ! b = Min ((\<lambda>v. compute_gdist geo cv ct (ts ! b) ! v) ` set (ts ! a)))"
    unfolding mat using len by simp
  from mat len have "length dist_mat = length rois" by simp
  with k rois len b e show ?thesis by blast
qed

text \<open>
  Both functions return on well-formed input: a valid mask, every source vertex in
  the mask, at least one seed set for \<^verbatim>\<open>zone_calc\<close>, no empty retained region for
  \<^verbatim>\<open>dist_calc_matrix\<close>. The claims below are about the value they return.
\<close>

lemma zone_calc_returns:
  assumes "valid_mask (length (fst surf)) cortex" "seeds \<noteq> []"
    "\<forall>s\<in>set seeds. set s \<subseteq> set cortex"
  shows "\<exists>zone. zone_calc geo argsort surf cortex seeds = Inr zone"
proof -
  let ?cv = "map (\<lambda>v. fst surf ! v) cortex"
  let ?ct = "List.map_filter (keep_triangle cortex) (snd surf)"
  from dist_rows_returns [OF assms(3)] obtain rows where
    r: "dist_rows geo ?cv ?ct cortex seeds = Inr rows" "length rows = length seeds"
    by blast
  with assms(2) have "[0..<length rows] = 0 # [1..<length rows]"
    by (simp add: upt_conv_Cons)
  then obtain first rest where "argsort_axis0 argsort rows (length ?cv) = first # rest"
    by (simp add: argsort_axis0_def)
  with r(1) assms(1) show ?thesis
    by (simp add: zone_calc_def surf_keep_cortex_valid)
qed


section \<open>Sorting and minima\<close>

lemma argsort_first:
  assumes "argsort_contract argsort" "xs \<noteq> []"
  shows "argsort xs ! 0 < length xs \<and> (\<forall>y<length xs. xs ! (argsort xs ! 0) \<le> xs ! y)"
proof -
  from assms(1) have s: "set (argsort xs) = {..<length xs}"
    and o: "sorted (map (\<lambda>i. xs ! i) (argsort xs))"
    unfolding argsort_contract_def by blast+
  have ne: "argsort xs \<noteq> []"
  proof
    assume "argsort xs = []"
    with s have "{..<length xs} = {}" by simp
    then have "length xs = 0" by (simp only: lessThan_empty_iff)
    with assms(2) show False by simp
  qed
  then have "0 < length (argsort xs)" by simp
  then have "argsort xs ! 0 \<in> set (argsort xs)" by (rule nth_mem)
  with s have first: "argsort xs ! 0 < length xs" by simp
  have "xs ! (argsort xs ! 0) \<le> xs ! y" if "y < length xs" for y
  proof -
    from that s have "y \<in> set (argsort xs)" by simp
    then obtain p where p: "p < length (argsort xs)" "argsort xs ! p = y"
      unfolding in_set_conv_nth by blast
    from o have "map (\<lambda>i. xs ! i) (argsort xs) ! 0 \<le> map (\<lambda>i. xs ! i) (argsort xs) ! p"
      by (rule sorted_nth_mono) (use p(1) in simp_all)
    with p ne show ?thesis by simp
  qed
  with first show ?thesis by blast
qed

lemma argsort_stable_contract: "argsort_contract argsort_stable"
  by (auto simp: argsort_contract_def argsort_stable_def)





lemma zone_entry:
  assumes "argsort_contract argsort" "zone_calc geo argsort surf cortex seeds = Inr zone"
  shows "\<exists>cv ct ts. surf_keep_cortex surf cortex = Inr (cv, ct) \<and>
           length ts = length seeds \<and>
           (\<forall>y<length seeds. translate_src (seeds ! y) cortex = Inr (ts ! y)) \<and>
           (\<forall>i<length cortex.
              1 \<le> zone ! (cortex ! i) \<and> zone ! (cortex ! i) \<le> length seeds \<and>
              (\<forall>y<length seeds.
                 compute_gdist geo cv ct (ts ! (zone ! (cortex ! i) - 1)) ! i
                 \<le> compute_gdist geo cv ct (ts ! y) ! i))"
proof -
  from zone_calc_Inr [OF assms(2)] obtain cv ct ts where
    k: "surf_keep_cortex surf cortex = Inr (cv, ct)" and
    ne: "seeds \<noteq> []" and
    len: "length ts = length seeds" and
    tr: "\<forall>y<length seeds. translate_src (seeds ! y) cortex = Inr (ts ! y)" and
    z: "zone = recort
          (map (\<lambda>j. argsort (column (map (compute_gdist geo cv ct) ts) j) ! 0 + 1)
             [0..<length cortex]) surf cortex"
    by blast
  let ?rows = "map (compute_gdist geo cv ct) ts"
  let ?data = "map (\<lambda>j. argsort (column ?rows j) ! 0 + 1) [0..<length cortex]"
  from surf_keep_cortex_Inr [OF k] have v: "valid_mask (length (fst surf)) cortex"
    by simp
  have "1 \<le> zone ! (cortex ! i) \<and> zone ! (cortex ! i) \<le> length seeds \<and>
        (\<forall>y<length seeds.
           compute_gdist geo cv ct (ts ! (zone ! (cortex ! i) - 1)) ! i
           \<le> compute_gdist geo cv ct (ts ! y) ! i)"
    if i: "i < length cortex" for i
  proof -
    have "zone ! (cortex ! i) = ?data ! i"
      unfolding z using v i by (intro recort_inside) (simp_all add: valid_mask_def)
    with i have zi: "zone ! (cortex ! i) = argsort (column ?rows i) ! 0 + 1"
      by simp
    have c: "column ?rows i \<noteq> []" "length (column ?rows i) = length seeds"
      using ne len by (auto simp: column_def)
    from argsort_first [OF assms(1) c(1)] c(2)
    have f: "argsort (column ?rows i) ! 0 < length seeds"
      and m: "\<forall>y<length seeds.
                column ?rows i ! (argsort (column ?rows i) ! 0) \<le> column ?rows i ! y"
      by simp_all
    have "column ?rows i ! y = compute_gdist geo cv ct (ts ! y) ! i"
      if "y < length seeds" for y
      using that len by (simp add: column_def)
    with m f have "\<forall>y<length seeds.
        compute_gdist geo cv ct (ts ! (argsort (column ?rows i) ! 0)) ! i
        \<le> compute_gdist geo cv ct (ts ! y) ! i"
      by simp
    with zi f show ?thesis by simp
  qed
  with k len tr show ?thesis by blast
qed



section \<open>The small mesh, evaluated\<close>

lemma valid_tri: "valid_mask (length (fst tri_surf)) tri_cortex"
  by (simp add: valid_mask_def tri_surf_def tri_cortex_def)

lemma keep_tri:
  "surf_keep_cortex tri_surf tri_cortex = Inr ([(0, 0, 0), (6, 0, 0), (3, 4, 0)], [(0, 1, 2)])"
  by (simp add: surf_keep_cortex_def valid_mask_def tri_surf_def tri_cortex_def
      List.map_filter_def keep_triangle_def)

lemma upt2: "[0..<2] = [0, 1]"
  by (simp add: upt_conv_Cons)

lemma upt3: "[0..<3] = [0, 1, 2]"
  by (simp add: upt_conv_Cons)

lemma dist_calc_tri_0: "dist_calc tri_geo tri_surf tri_cortex [0] = Inr [0, 0, 6, 5]"
  by (simp add: dist_calc_def keep_tri)
    (simp add: tri_cortex_def tri_surf_def compute_gdist_def upt3 tri_geo_def tri_dist_def
      recort_def)

lemma dist_calc_tri_2: "dist_calc tri_geo tri_surf tri_cortex [2] = Inr [6, 0, 0, 5]"
  by (simp add: dist_calc_def keep_tri)
    (simp add: tri_cortex_def tri_surf_def compute_gdist_def upt3 tri_geo_def tri_dist_def
      recort_def)

lemma dist_rows_tri:
  "dist_rows tri_geo [(0, 0, 0), (6, 0, 0), (3, 4, 0)] [(0, 1, 2)] tri_cortex [[0], [2]]
   = Inr [[0, 6, 5], [6, 0, 5]]"
  by (simp add: tri_cortex_def compute_gdist_def upt3 tri_geo_def tri_dist_def)

lemma axis0_tri_stable:
  "argsort_axis0 argsort_stable [[0, 6, 5], [6, 0, 5]] 3 = [[0, 1, 0], [1, 0, 1]]"
  by (simp add: argsort_axis0_def column_def upt2 upt3 argsort_stable_def)

lemma recort_tri_1: "recort [1, 2, 1 :: nat] tri_surf tri_cortex = [1, 0, 2, 1]"
  by (simp add: recort_def tri_surf_def tri_cortex_def)

lemma zone_tri_stable:
  "zone_calc tri_geo argsort_stable tri_surf tri_cortex [[0], [2]] = Inr [1, 0, 2, 1]"
proof -
  have "length [(0, 0, 0), (6, 0, 0), (3, 4, 0) :: vertex] = 3" by simp
  moreover have "map (\<lambda>i. i + 1) [0, 1, 0 :: nat] = [1, 2, 1]" by simp
  ultimately show ?thesis
    by (simp only: zone_calc_def keep_tri dist_rows_tri axis0_tri_stable recort_tri_1
        sum.case prod.case list.case Let_def)
qed



lemma tri_rois:
  "filter (\<lambda>a. a \<notin> set (exceptions_or_default None)) (get_freesurfer_label tri_labels)
   = [''A'', ''B'']"
  by (simp add: exceptions_or_default_def default_exceptions_def get_freesurfer_label_def
      tri_labels_def)

lemma tri_members:
  "map (load_freesurfer_label tri_labels) [''A'', ''B''] = [[0], [2, 3]]"
  by (simp add: load_freesurfer_label_def tri_labels_def)

lemma dist_rows_tri_labels:
  "dist_rows tri_geo [(0, 0, 0), (6, 0, 0), (3, 4, 0)] [(0, 1, 2)] tri_cortex [[0], [2, 3]]
   = Inr [[0, 6, 5], [5, 0, 0]]"
  by (simp add: tri_cortex_def compute_gdist_def upt3 tri_geo_def tri_dist_def)

lemma dist_mat_rows_tri:
  "dist_mat_rows [[0, 6, 5], [5, 0, 0]] tri_cortex [[0], [2, 3]] = Inr [[0, 5], [5, 0]]"
  by (simp add: tri_cortex_def min_axis1_def)

lemma dist_calc_matrix_tri:
  "dist_calc_matrix tri_geo tri_surf tri_cortex tri_labels None
   = Inr ([[0, 5], [5, 0]], [''A'', ''B''])"
  by (simp only: dist_calc_matrix_unfold keep_tri tri_rois tri_members dist_rows_tri_labels
      dist_mat_rows_tri sum.case prod.case)

section \<open>The hexagon: one region per vertex\<close>






section \<open>The float32 cast and the bounded solver\<close>

lemma floor_log2_1: "2 \<le> x \<Longrightarrow> x < 4 \<Longrightarrow> \<lfloor>log 2 x\<rfloor> = 1"
proof (rule floor_unique)
  assume a: "2 \<le> x" "x < 4"
  have "log 2 2 \<le> log 2 x" using a by (simp del: log_eq_one)
  then show "of_int 1 \<le> log 2 x" by simp
  have "log 2 x < log 2 4" using a by simp
  also have "log 2 4 = log 2 (2 ^ 2)" by simp
  also have "\<dots> = 2" by (simp only: log_pow_cancel)
  finally show "log 2 x < of_int 1 + 1" by simp
qed

lemma float32_step_example: "float32_step (50331651 / 16777216) = 1 / 4194304"
proof -
  have e: "\<lfloor>log 2 \<bar>50331651 / 16777216 :: real\<bar>\<rfloor> = 1"
    by (rule floor_log2_1) simp_all
  have "(if (50331651 / 16777216 :: real) = 0 then - 126 else max (1 :: int) (- 126)) - 23
        = - 22"
    by simp
  moreover have "(2 :: real) powi (- 22) = 1 / 4194304"
    by (simp add: power_int_minus field_simps)
  ultimately show ?thesis
    unfolding float32_step_def e by (simp only:)
qed

lemma float32_example:
  "np_float32 (50331651 / 16777216) = 12582913 / 4194304"
proof -
  have q: "(50331651 / 16777216 :: real) / (1 / 4194304) = 50331651 / 4"
    by simp
  have f: "\<lfloor>50331651 / 4 :: real\<rfloor> = 12582912"
    by (rule floor_unique) simp_all
  have r: "round_half_even (50331651 / 4) = 12582913"
    unfolding round_half_even_def f Let_def by simp
  show ?thesis
    unfolding np_float32_def float32_step_example q r by simp
qed

text \<open>
  The cast is monotone and moves a value by at most half a step.
\<close>

lemma round_half_even_cases:
  "round_half_even q = \<lfloor>q\<rfloor> \<or> round_half_even q = \<lfloor>q\<rfloor> + 1"
  unfolding round_half_even_def Let_def by simp

lemma round_half_even_near:
  "\<bar>of_int (round_half_even q) - q\<bar> \<le> 1 / 2"
  unfolding round_half_even_def Let_def by (simp; linarith)

lemma round_half_even_of_int: "round_half_even (of_int n) = n"
  unfolding round_half_even_def Let_def by simp

lemma round_half_even_mono:
  assumes "q \<le> q'"
  shows "round_half_even q \<le> round_half_even q'"
proof -
  have f: "\<lfloor>q\<rfloor> \<le> \<lfloor>q'\<rfloor>" using assms by (rule floor_mono)
  show ?thesis
  proof (cases "\<lfloor>q\<rfloor> = \<lfloor>q'\<rfloor>")
    case True
    then show ?thesis
      using assms unfolding round_half_even_def Let_def by (simp; linarith)
  next
    case False
    with f have "\<lfloor>q\<rfloor> + 1 \<le> \<lfloor>q'\<rfloor>" by simp
    moreover have "round_half_even q \<le> \<lfloor>q\<rfloor> + 1"
      using round_half_even_cases [of q] by auto
    moreover have "\<lfloor>q'\<rfloor> \<le> round_half_even q'"
      using round_half_even_cases [of q'] by auto
    ultimately show ?thesis by linarith
  qed
qed

lemma float32_step_pos: "0 < float32_step x"
  unfolding float32_step_def by simp

lemma powi_floor_log_le:
  assumes "0 < x"
  shows "2 powi \<lfloor>log 2 x\<rfloor> \<le> x"
proof -
  have "2 powr (of_int \<lfloor>log 2 x\<rfloor>) \<le> 2 powr (log 2 x)"
    by (rule powr_mono) simp_all
  also have "\<dots> = x" using assms by simp
  finally show ?thesis by (simp add: powr_real_of_int')
qed

lemma powi_floor_log_gt:
  assumes "0 < x"
  shows "x < 2 powi (\<lfloor>log 2 x\<rfloor> + 1)"
proof -
  have "x = 2 powr (log 2 x)" using assms by simp
  also have "\<dots> < 2 powr (of_int (\<lfloor>log 2 x\<rfloor> + 1))"
    by (rule powr_less_mono) simp_all
  also have "\<dots> = 2 powi (\<lfloor>log 2 x\<rfloor> + 1)"
    by (rule powr_real_of_int') simp_all
  finally show ?thesis .
qed


lemma float32_step_eq:
  "0 < x \<Longrightarrow> float32_step x = 2 powi (max \<lfloor>log 2 x\<rfloor> (- 126)) / 2 ^ 23"
  unfolding float32_step_def by (simp add: power_int_diff)

lemma np_float32_near: "\<bar>np_float32 x - x\<bar> \<le> float32_step x / 2"
proof (cases "x = 0")
  case True
  then show ?thesis using float32_step_pos [of x] by (simp add: np_float32_def)
next
  case False
  define u where "u = float32_step x"
  define q where "q = x / u"
  have u: "0 < u" unfolding u_def by (rule float32_step_pos)
  have x: "x = q * u" unfolding q_def using u by simp
  have "np_float32 x - x = (of_int (round_half_even q) - q) * u"
    using False unfolding np_float32_def q_def u_def [symmetric]
    using u by (simp add: algebra_simps)
  then have "\<bar>np_float32 x - x\<bar> = \<bar>of_int (round_half_even q) - q\<bar> * u"
    using u by (simp add: abs_mult)
  also have "\<dots> \<le> (1 / 2) * u"
    by (rule mult_right_mono) (use u round_half_even_near [of q] in simp_all)
  finally show ?thesis unfolding u_def by simp
qed

lemma np_float32_nonpos: "x \<le> 0 \<Longrightarrow> np_float32 x \<le> 0"
proof -
  assume a: "x \<le> 0"
  have "x / float32_step x \<le> of_int 0"
    using a float32_step_pos [of x] by (simp add: divide_le_0_iff)
  then have "round_half_even (x / float32_step x) \<le> round_half_even (of_int 0)"
    by (rule round_half_even_mono)
  then have "round_half_even (x / float32_step x) \<le> 0"
    by (simp only: round_half_even_of_int)
  then show ?thesis
    using float32_step_pos [of x]
    by (simp add: np_float32_def mult_le_0_iff)
qed

lemma np_float32_nonneg: "0 \<le> x \<Longrightarrow> 0 \<le> np_float32 x"
proof -
  assume a: "0 \<le> x"
  have "of_int 0 \<le> x / float32_step x"
    using a float32_step_pos [of x] by simp
  then have "round_half_even (of_int 0) \<le> round_half_even (x / float32_step x)"
    by (rule round_half_even_mono)
  then have "0 \<le> round_half_even (x / float32_step x)"
    by (simp only: round_half_even_of_int)
  then show ?thesis
    using float32_step_pos [of x]
    by (simp add: np_float32_def)
qed

lemma np_float32_upper:
  assumes "0 < x"
  shows "np_float32 x \<le> 2 * 2 powi (max \<lfloor>log 2 x\<rfloor> (- 126))"
proof -
  define e where "e = max \<lfloor>log 2 x\<rfloor> (- 126)"
  define u where "u = float32_step x"
  have ue: "u = 2 powi e / 2 ^ 23"
    unfolding u_def e_def using assms by (rule float32_step_eq)
  have u: "0 < u" unfolding u_def by (rule float32_step_pos)
  have "x < 2 powi (\<lfloor>log 2 x\<rfloor> + 1)" using assms by (rule powi_floor_log_gt)
  also have "\<dots> \<le> 2 powi (e + 1)"
    by (rule power_int_increasing) (simp_all add: e_def)
  also have "\<dots> = 2 * 2 powi e" by (simp add: power_int_add)
  finally have "x \<le> 2 ^ 24 * u" unfolding ue by simp
  then have "x / u \<le> of_int (2 ^ 24)" using u by (simp add: pos_divide_le_eq)
  then have "round_half_even (x / u) \<le> round_half_even (of_int (2 ^ 24))"
    by (rule round_half_even_mono)
  then have "round_half_even (x / u) \<le> 2 ^ 24"
    by (simp only: round_half_even_of_int)
  then have "(of_int (round_half_even (x / u)) :: real) \<le> 2 ^ 24"
    by (metis of_int_le_iff of_int_numeral of_int_power)
  then have "of_int (round_half_even (x / u)) * u \<le> 2 ^ 24 * u"
    using u by (simp only: mult_le_cancel_right_pos)
  also have "\<dots> = 2 * 2 powi e" unfolding ue by simp
  finally show ?thesis
    using assms unfolding np_float32_def u_def [symmetric] e_def by simp
qed

lemma np_float32_lower:
  assumes "0 < x" "- 126 \<le> \<lfloor>log 2 x\<rfloor>"
  shows "2 powi \<lfloor>log 2 x\<rfloor> \<le> np_float32 x"
proof -
  define e where "e = \<lfloor>log 2 x\<rfloor>"
  define u where "u = float32_step x"
  have "max \<lfloor>log 2 x\<rfloor> (- 126) = \<lfloor>log 2 x\<rfloor>"
    using assms(2) by (rule max_absorb1)
  with float32_step_eq [OF assms(1)] have ue: "u = 2 powi e / 2 ^ 23"
    unfolding u_def e_def by simp
  have u: "0 < u" unfolding u_def by (rule float32_step_pos)
  have "2 powi e \<le> x" unfolding e_def using assms(1) by (rule powi_floor_log_le)
  then have "2 ^ 23 * u \<le> x" unfolding ue by simp
  then have "of_int (2 ^ 23) \<le> x / u" using u by (simp add: pos_le_divide_eq)
  then have "round_half_even (of_int (2 ^ 23)) \<le> round_half_even (x / u)"
    by (rule round_half_even_mono)
  then have "2 ^ 23 \<le> round_half_even (x / u)"
    by (simp only: round_half_even_of_int)
  then have "(2 ^ 23 :: real) \<le> of_int (round_half_even (x / u))"
    by (metis of_int_le_iff of_int_numeral of_int_power)
  then have "2 ^ 23 * u \<le> of_int (round_half_even (x / u)) * u"
    using u by (simp only: mult_le_cancel_right_pos)
  moreover have "2 ^ 23 * u = 2 powi e" unfolding ue by simp
  ultimately show ?thesis
    using assms unfolding np_float32_def u_def [symmetric] e_def by simp
qed

lemma np_float32_mono_pos:
  assumes "0 < x" "x \<le> y"
  shows "np_float32 x \<le> np_float32 y"
proof -
  have y: "0 < y" using assms by simp
  define ex where "ex = max \<lfloor>log 2 x\<rfloor> (- 126)"
  define ey where "ey = max \<lfloor>log 2 y\<rfloor> (- 126)"
  have "log 2 x \<le> log 2 y" using assms by simp
  then have fl: "\<lfloor>log 2 x\<rfloor> \<le> \<lfloor>log 2 y\<rfloor>" by (rule floor_mono)
  then have le: "ex \<le> ey" unfolding ex_def ey_def by simp
  show ?thesis
  proof (cases "ex = ey")
    case True
    then have s: "float32_step x = float32_step y"
      unfolding ex_def ey_def using assms(1) y by (simp only: float32_step_eq)
    have "x / float32_step y \<le> y / float32_step y"
      using assms float32_step_pos [of y] by (simp add: divide_right_mono)
    then have "round_half_even (x / float32_step y) \<le> round_half_even (y / float32_step y)"
      by (rule round_half_even_mono)
    then have "(of_int (round_half_even (x / float32_step y)) :: real)
               \<le> of_int (round_half_even (y / float32_step y))"
      by simp
    then have "of_int (round_half_even (x / float32_step y)) * float32_step y
               \<le> of_int (round_half_even (y / float32_step y)) * float32_step y"
      using float32_step_pos [of y] by (simp only: mult_le_cancel_right_pos)
    then show ?thesis
      using assms y unfolding np_float32_def s by simp
  next
    case False
    with le have lt: "ex + 1 \<le> ey" by simp
    then have ey: "ey = \<lfloor>log 2 y\<rfloor>" "- 126 \<le> \<lfloor>log 2 y\<rfloor>"
      unfolding ex_def ey_def by linarith+
    have "np_float32 x \<le> 2 * 2 powi ex"
      unfolding ex_def using assms(1) by (rule np_float32_upper)
    also have "\<dots> = 2 powi (ex + 1)" by (simp add: power_int_add)
    also have "\<dots> \<le> 2 powi ey"
      by (rule power_int_increasing) (use lt in simp_all)
    also have "\<dots> \<le> np_float32 y"
      unfolding ey(1) using y ey(2) by (rule np_float32_lower)
    finally show ?thesis .
  qed
qed

lemma np_float32_mono:
  assumes "x \<le> y" "0 \<le> y"
  shows "np_float32 x \<le> np_float32 y"
proof (cases "0 < x")
  case True
  then show ?thesis using assms(1) by (rule np_float32_mono_pos)
next
  case False
  then have "np_float32 x \<le> 0" by (simp add: np_float32_nonpos)
  moreover from assms(2) have "0 \<le> np_float32 y" by (rule np_float32_nonneg)
  ultimately show ?thesis by simp
qed

lemma bounded_pairs_contract: "pairwise_contract (bounded_pairs d) (\<lambda>V T. d)"
  unfolding pairwise_contract_def bounded_pairs_def by auto

lemma dist_calc_pairwise_Inr:
  assumes "dist_calc_pairwise local_gdist_matrix float32 surf cortex maxdist = Inr m"
  shows "\<exists>cv ct. surf_keep_cortex surf cortex = Inr (cv, ct) \<and>
           m = recort2d (astype float32 (local_gdist_matrix cv ct maxdist)) surf cortex"
  using assms by (auto simp: dist_calc_pairwise_def split: sum.splits)

lemma recort2d_astype_entry:
  assumes "((p, q), y) \<in> set (entries (recort2d (astype float32 a) surf cortex))"
  shows "\<exists>i j x. ((i, j), x) \<in> set (entries a) \<and> p = cortex ! i \<and> q = cortex ! j \<and>
           y = float32 x \<and> y \<noteq> 0"
  using assms by (auto simp: recort2d_def astype_def)

lemma keep_edge:
  "surf_keep_cortex edge_surf [0, 1, 2]
   = Inr ([(0, 0, 0), (50331651 / 16777216, 0, 0), (0, 16777217 / 4194304, 0)], [(0, 1, 2)])"
  by (simp add: surf_keep_cortex_def valid_mask_def edge_surf_def
      List.map_filter_def keep_triangle_def)

lemma bounded_pairs_edge:
  "bounded_pairs edge_dist [(0, 0, 0), (50331651 / 16777216, 0, 0), (0, 16777217 / 4194304, 0)]
     [(0, 1, 2)] (50331651 / 16777216)
   = \<lparr>shape = (3, 3),
      entries = [((0, 1), 50331651 / 16777216), ((1, 0), 50331651 / 16777216)]\<rparr>"
  by (simp add: bounded_pairs_def upt3 edge_dist_def)

lemma recort2d_edge:
  "recort2d (astype np_float32
       \<lparr>shape = (3, 3),
        entries = [((0, 1), 50331651 / 16777216), ((1, 0), 50331651 / 16777216)]\<rparr>)
     edge_surf [0, 1, 2]
   = \<lparr>shape = (3, 3),
      entries = [((0, 1), 12582913 / 4194304), ((1, 0), 12582913 / 4194304)]\<rparr>"
  by (simp add: recort2d_def astype_def float32_example edge_surf_def)

lemma dist_calc_pairwise_edge:
  "dist_calc_pairwise (bounded_pairs edge_dist) np_float32 edge_surf [0, 1, 2]
     (50331651 / 16777216)
   = Inr \<lparr>shape = (3, 3),
          entries = [((0, 1), 12582913 / 4194304), ((1, 0), 12582913 / 4194304)]\<rparr>"
  by (simp only: dist_calc_pairwise_def keep_edge bounded_pairs_edge recort2d_edge
      sum.case prod.case Let_def)

section \<open>Claims on \<^verbatim>\<open>zone_calc\<close>\<close>




text \<open>
  Claim C10. When \<^verbatim>\<open>zone_calc\<close> returns an assignment for \<open>k\<close> seed sets, the vector has
  one entry per surface vertex, every cortex vertex holds a value from 1 to \<open>k\<close>, and
  every other vertex holds 0. The hypothesis is the interface of \<^verbatim>\<open>np.argsort\<close> (a
  permutation of the indices).
\<close>

theorem zone_calc_range:
  assumes "argsort_contract argsort" "zone_calc geo argsort surf cortex seeds = Inr zone"
  shows "length zone = length (fst surf) \<and>
         (\<forall>v<length (fst surf).
            (v \<in> set cortex \<longrightarrow> 1 \<le> zone ! v \<and> zone ! v \<le> length seeds) \<and>
            (v \<notin> set cortex \<longrightarrow> zone ! v = 0))"
proof -
  from zone_calc_Inr [OF assms(2)] obtain data where
    z: "zone = recort data surf cortex"
    by blast
  from zone_entry [OF assms] have
    r: "\<forall>i<length cortex. 1 \<le> zone ! (cortex ! i) \<and> zone ! (cortex ! i) \<le> length seeds"
    by blast
  have "1 \<le> zone ! v \<and> zone ! v \<le> length seeds" if "v \<in> set cortex" for v
  proof -
    from that obtain i where "i < length cortex" "cortex ! i = v"
      unfolding in_set_conv_nth by blast
    with r show ?thesis by blast
  qed
  moreover have "zone ! v = 0" if "v \<notin> set cortex" "v < length (fst surf)" for v
    unfolding z using that by (rule recort_outside)
  moreover have "length zone = length (fst surf)"
    unfolding z by (rule length_recort)
  ultimately show ?thesis by blast
qed

theorem zone_calc_range_witness:
  "argsort_contract argsort_stable \<and>
   zone_calc tri_geo argsort_stable tri_surf tri_cortex [[0], [2]] = Inr [1, 0, 2, 1] \<and>
   length [1, 0, 2, 1 :: nat] = length (fst tri_surf) \<and>
   1 \<le> [1, 0, 2, 1 :: nat] ! 3 \<and> [1, 0, 2, 1 :: nat] ! 3 \<le> length [[0], [2 :: nat]] \<and>
   [1, 0, 2, 1 :: nat] ! 1 = 0"
proof -
  note r = zone_calc_range [OF argsort_stable_contract zone_tri_stable]
  then have l: "length [1, 0, 2, 1 :: nat] = length (fst tri_surf)" ..
  from r have a: "\<forall>v<length (fst tri_surf).
      (v \<in> set tri_cortex \<longrightarrow>
         1 \<le> [1, 0, 2, 1 :: nat] ! v \<and> [1, 0, 2, 1 :: nat] ! v \<le> length [[0], [2 :: nat]]) \<and>
      (v \<notin> set tri_cortex \<longrightarrow> [1, 0, 2, 1 :: nat] ! v = 0)" ..
  have m: "(3 :: nat) < length (fst tri_surf)" "(3 :: nat) \<in> set tri_cortex"
    "(1 :: nat) < length (fst tri_surf)" "(1 :: nat) \<notin> set tri_cortex"
    by (simp_all add: tri_surf_def tri_cortex_def)
  from a [rule_format, OF m(1)] m(2)
  have x: "1 \<le> [1, 0, 2, 1 :: nat] ! 3 \<and> [1, 0, 2, 1 :: nat] ! 3 \<le> length [[0], [2 :: nat]]"
    by blast
  from a [rule_format, OF m(3)] m(4)
  have y: "[1, 0, 2, 1 :: nat] ! 1 = 0"
    by blast
  from argsort_stable_contract zone_tri_stable l x y show ?thesis
    by (elim conjE) (intro conjI; assumption)
qed

text \<open>
  Claim C9. On a valid cortex mask, \<^verbatim>\<open>zone_calc\<close> with an empty sequence of seed sets
  raises (\<^verbatim>\<open>IndexError\<close>: the argsort result has no row 0) and returns no assignment.
\<close>

theorem zone_calc_no_seeds:
  assumes "valid_mask (length (fst surf)) cortex"
  shows "zone_calc geo argsort surf cortex [] = Inl IndexError"
  using assms by (simp add: zone_calc_def surf_keep_cortex_valid argsort_axis0_def)

theorem zone_calc_no_seeds_witness:
  "valid_mask (length (fst tri_surf)) tri_cortex \<and>
   zone_calc tri_geo argsort_stable tri_surf tri_cortex [] = Inl IndexError"
  using valid_tri zone_calc_no_seeds [OF valid_tri] by (rule conjI)

section \<open>Claims on \<^verbatim>\<open>dist_calc_matrix\<close>\<close>







text \<open>
  Claim C6. The returned region names are the label names that are not excluded (by
  default \<^verbatim>\<open>'Unknown'\<close> and \<^verbatim>\<open>'Medial_wall'\<close>), in the order of the label list; the
  matrix has one row and one column per returned name, and entry \<open>(a, b)\<close> is computed
  from the vertex sets of the names at positions \<open>a\<close> and \<open>b\<close>.
\<close>

theorem dist_calc_matrix_regions:
  assumes "dist_calc_matrix geo surf cortex labels exceptions_arg = Inr (dist_mat, rois)"
  shows "rois = filter (\<lambda>a. a \<notin> set (case exceptions_arg of
                                       None \<Rightarrow> [''Unknown'', ''Medial_wall'']
                                     | Some e \<Rightarrow> e))
                  (get_freesurfer_label labels) \<and>
         length dist_mat = length rois \<and>
         (\<forall>a<length rois. length (dist_mat ! a) = length rois) \<and>
         (\<exists>cv ct. surf_keep_cortex surf cortex = Inr (cv, ct) \<and>
            (\<forall>a<length rois. \<forall>b<length rois. \<exists>ta tb.
               translate_src (load_freesurfer_label labels (rois ! a)) cortex = Inr ta \<and>
               translate_src (load_freesurfer_label labels (rois ! b)) cortex = Inr tb \<and>
               dist_mat ! a ! b = Min ((\<lambda>v. compute_gdist geo cv ct tb ! v) ` set ta)))"
proof -
  from matrix_entry [OF assms] obtain cv ct ts where
    k: "surf_keep_cortex surf cortex = Inr (cv, ct)" and
    rois: "rois = filter (\<lambda>a. a \<notin> set (exceptions_or_default exceptions_arg))
                    (get_freesurfer_label labels)" and
    len: "length dist_mat = length rois" and
    tr: "\<forall>y<length rois.
           translate_src (load_freesurfer_label labels (rois ! y)) cortex = Inr (ts ! y) \<and>
           ts ! y \<noteq> [] \<and> set (ts ! y) \<subseteq> {..<length cv}" and
    e: "\<forall>a<length rois. length (dist_mat ! a) = length rois \<and>
          (\<forall>b<length rois.
             dist_mat ! a ! b
             = Min ((\<lambda>v. compute_gdist geo cv ct (ts ! b) ! v) ` set (ts ! a)))"
    by blast
  have "\<exists>ta tb.
      translate_src (load_freesurfer_label labels (rois ! a)) cortex = Inr ta \<and>
      translate_src (load_freesurfer_label labels (rois ! b)) cortex = Inr tb \<and>
      dist_mat ! a ! b = Min ((\<lambda>v. compute_gdist geo cv ct tb ! v) ` set ta)"
    if "a < length rois" "b < length rois" for a b
    using tr e that by blast
  moreover from e have "\<forall>a<length rois. length (dist_mat ! a) = length rois"
    by blast
  moreover have "rois = filter (\<lambda>a. a \<notin> set (case exceptions_arg of
                                       None \<Rightarrow> [''Unknown'', ''Medial_wall'']
                                     | Some e \<Rightarrow> e))
                  (get_freesurfer_label labels)"
    using rois unfolding exceptions_or_default_def default_exceptions_def .
  ultimately show ?thesis using k len by blast
qed

theorem dist_calc_matrix_regions_witness:
  "dist_calc_matrix tri_geo tri_surf tri_cortex tri_labels None
     = Inr ([[0, 5], [5, 0]], [''A'', ''B'']) \<and>
   [''A'', ''B''] = filter (\<lambda>a. a \<notin> set [''Unknown'', ''Medial_wall''])
                      (get_freesurfer_label tri_labels) \<and>
   length [[0, 5], [5, 0 :: real]] = length [''A'', ''B'']"
proof -
  from dist_calc_matrix_regions [OF dist_calc_matrix_tri]
  have "[''A'', ''B''] = filter (\<lambda>a. a \<notin> set (case None of
                                       None \<Rightarrow> [''Unknown'', ''Medial_wall'']
                                     | Some e \<Rightarrow> e))
                  (get_freesurfer_label tri_labels)"
    and "length [[0, 5], [5, 0 :: real]] = length [''A'', ''B'']"
    by blast+
  then show ?thesis
    using dist_calc_matrix_tri by simp
qed

section \<open>Claims on \<^verbatim>\<open>dist_calc_pairwise\<close>\<close>

text \<open>
  Claim C5, as amended. For a solver that stores only pairs within the bound, every
  entry of the matrix \<^verbatim>\<open>dist_calc_pairwise\<close> returns sits at the full-surface positions
  \<open>(cortex ! i, cortex ! j)\<close> of a pair of cortex vertices whose distance \<open>x\<close> is at most
  \<open>maxdist\<close>, and holds the float32 value nearest to \<open>x\<close>. That value is at most the
  float32 value nearest to \<open>maxdist\<close>, so it exceeds \<open>maxdist\<close> by at most half a float32
  step at \<open>maxdist\<close>. No pair of cortex vertices at a distance greater than \<open>maxdist\<close> has
  an entry. The bound \<open>maxdist\<close> is non-negative and below the overflow threshold of
  float32.
\<close>

theorem dist_calc_pairwise_entries:
  assumes "pairwise_contract local_gdist_matrix d"
    "0 \<le> maxdist" "maxdist < 2 ^ 128 - 2 ^ 103"
    "dist_calc_pairwise local_gdist_matrix np_float32 surf cortex maxdist = Inr m"
  shows "\<exists>cv ct. surf_keep_cortex surf cortex = Inr (cv, ct) \<and>
           (\<forall>p q y. ((p, q), y) \<in> set (entries m) \<longrightarrow>
              (\<exists>i j x. i < length cortex \<and> j < length cortex \<and>
                 p = cortex ! i \<and> q = cortex ! j \<and>
                 x = d cv ct i j \<and> x \<le> maxdist \<and> y = np_float32 x) \<and>
              y \<le> np_float32 maxdist \<and>
              y \<le> maxdist + float32_step maxdist / 2) \<and>
           (\<forall>i j y. i < length cortex \<and> j < length cortex \<and> maxdist < d cv ct i j \<longrightarrow>
              ((cortex ! i, cortex ! j), y) \<notin> set (entries m))"
proof -
  from dist_calc_pairwise_Inr [OF assms(4)] obtain cv ct where
    k: "surf_keep_cortex surf cortex = Inr (cv, ct)" and
    m: "m = recort2d (astype np_float32 (local_gdist_matrix cv ct maxdist)) surf cortex"
    by blast
  from surf_keep_cortex_Inr [OF k] have len: "length cv = length cortex"
    and dis: "distinct cortex"
    by (simp_all add: valid_mask_def)
  have src: "\<exists>i j x. i < length cortex \<and> j < length cortex \<and>
               p = cortex ! i \<and> q = cortex ! j \<and>
               x = d cv ct i j \<and> x \<le> maxdist \<and> y = np_float32 x"
    if "((p, q), y) \<in> set (entries m)" for p q y
  proof -
    from that recort2d_astype_entry [of p q y np_float32 "local_gdist_matrix cv ct maxdist"
        surf cortex]
    obtain i j x where
      e: "((i, j), x) \<in> set (entries (local_gdist_matrix cv ct maxdist))" and
      pq: "p = cortex ! i" "q = cortex ! j" "y = np_float32 x"
      unfolding m by blast
    from assms(1) e have "i < length cv \<and> j < length cv \<and> x = d cv ct i j \<and> x \<le> maxdist"
      unfolding pairwise_contract_def by blast
    with pq len show ?thesis by auto
  qed
  have near: "np_float32 maxdist \<le> maxdist + float32_step maxdist / 2"
    using np_float32_near [of maxdist] by linarith
  have bound: "y \<le> np_float32 maxdist \<and> y \<le> maxdist + float32_step maxdist / 2"
    if "((p, q), y) \<in> set (entries m)" for p q y
  proof -
    from src [OF that] obtain x where x: "x \<le> maxdist" "y = np_float32 x" by blast
    from x(1) assms(2) have "np_float32 x \<le> np_float32 maxdist" by (rule np_float32_mono)
    with x(2) near show ?thesis by simp
  qed
  have "((cortex ! i, cortex ! j), y) \<notin> set (entries m)"
    if ij: "i < length cortex" "j < length cortex" and far: "maxdist < d cv ct i j" for i j y
  proof
    assume "((cortex ! i, cortex ! j), y) \<in> set (entries m)"
    from src [OF this] obtain i' j' where
      a: "i' < length cortex" "j' < length cortex"
        "cortex ! i = cortex ! i'" "cortex ! j = cortex ! j'" "d cv ct i' j' \<le> maxdist"
      by blast
    from dis ij a(1,2,3,4) have "i = i'" "j = j'"
      by (simp_all add: nth_eq_iff_index_eq)
    with a(5) far show False by simp
  qed
  with k src bound show ?thesis by blast
qed

theorem dist_calc_pairwise_entries_witness:
  "pairwise_contract (bounded_pairs edge_dist) (\<lambda>V T. edge_dist) \<and>
   (0 :: real) \<le> 50331651 / 16777216 \<and> (50331651 / 16777216 :: real) < 2 ^ 128 - 2 ^ 103 \<and>
   dist_calc_pairwise (bounded_pairs edge_dist) np_float32 edge_surf [0, 1, 2]
     (50331651 / 16777216)
   = Inr \<lparr>shape = (3, 3),
          entries = [((0, 1), 12582913 / 4194304), ((1, 0), 12582913 / 4194304)]\<rparr> \<and>
   (\<exists>cv ct. surf_keep_cortex edge_surf [0, 1, 2] = Inr (cv, ct) \<and>
      (\<forall>p q y. ((p, q), y) \<in> set (entries
            \<lparr>shape = (3, 3),
             entries = [((0, 1), 12582913 / 4194304), ((1, 0), 12582913 / 4194304)]\<rparr>) \<longrightarrow>
         (\<exists>i j x. i < length [0, 1, 2 :: nat] \<and> j < length [0, 1, 2 :: nat] \<and>
            p = [0, 1, 2] ! i \<and> q = [0, 1, 2] ! j \<and>
            x = edge_dist i j \<and> x \<le> 50331651 / 16777216 \<and> y = np_float32 x) \<and>
         y \<le> np_float32 (50331651 / 16777216) \<and>
         y \<le> 50331651 / 16777216 + float32_step (50331651 / 16777216) / 2) \<and>
      (\<forall>i j y. i < length [0, 1, 2 :: nat] \<and> j < length [0, 1, 2 :: nat] \<and>
            50331651 / 16777216 < edge_dist i j \<longrightarrow>
         (([0, 1, 2] ! i, [0, 1, 2] ! j), y) \<notin> set (entries
            \<lparr>shape = (3, 3),
             entries = [((0, 1), 12582913 / 4194304), ((1, 0), 12582913 / 4194304)]\<rparr>)))"
proof -
  have a: "(0 :: real) \<le> 50331651 / 16777216" by simp
  have b: "(50331651 / 16777216 :: real) < 2 ^ 128 - 2 ^ 103" by simp
  note dist_calc_pairwise_entries [OF bounded_pairs_contract a b dist_calc_pairwise_edge]
  with bounded_pairs_contract a b dist_calc_pairwise_edge show ?thesis
    by (intro conjI)
qed

text \<open>
  Claim C5 as stated fails in its first half: a stored value can exceed \<open>maxdist\<close>. With
  \<open>maxdist = 3s\<close> on the triangle above, the pair \<open>(v0, v1)\<close> is within the bound and is
  stored; the cast to float32 rounds \<open>3s = 3 + 3 / 2 ^ 24\<close> up to \<open>3 + 1 / 2 ^ 22\<close>, which is
  greater than \<open>maxdist\<close>.
\<close>

theorem dist_calc_pairwise_bound_counterexample:
  "pairwise_contract (bounded_pairs edge_dist) (\<lambda>V T. edge_dist) \<and>
   dist_calc_pairwise (bounded_pairs edge_dist) np_float32 edge_surf [0, 1, 2]
     (50331651 / 16777216)
   = Inr \<lparr>shape = (3, 3),
          entries = [((0, 1), 12582913 / 4194304), ((1, 0), 12582913 / 4194304)]\<rparr> \<and>
   (50331651 / 16777216 :: real) < 12582913 / 4194304"
proof (intro conjI)
  show "pairwise_contract (bounded_pairs edge_dist) (\<lambda>V T. edge_dist)"
    by (rule bounded_pairs_contract)
  show "dist_calc_pairwise (bounded_pairs edge_dist) np_float32 edge_surf [0, 1, 2]
     (50331651 / 16777216)
   = Inr \<lparr>shape = (3, 3),
          entries = [((0, 1), 12582913 / 4194304), ((1, 0), 12582913 / 4194304)]\<rparr>"
    by (rule dist_calc_pairwise_edge)
  show "(50331651 / 16777216 :: real) < 12582913 / 4194304"
    by simp
qed

section \<open>Claims on the helpers\<close>

text \<open>
  Claim C4. For a valid cortex mask \<open>C\<close> over a surface with \<open>n\<close> vertices and a field
  \<open>f\<close> of length \<open>|C|\<close>, the projected vector has length \<open>n\<close>, holds \<open>f ! i\<close> at position
  \<open>C ! i\<close> for every \<open>i\<close>, and 0 at every position outside \<open>C\<close>. What \<^verbatim>\<open>dist_calc\<close> and
  \<^verbatim>\<open>zone_calc\<close> return is such a projection of a vector of length \<open>|C|\<close>. (The projection
  is the spec's model of the helper \<^verbatim>\<open>recort\<close>.)
\<close>

theorem recort_projection:
  assumes "valid_mask (length (fst surf)) cortex" "length f = length cortex"
  shows "length (recort f surf cortex) = length (fst surf) \<and>
         (\<forall>i<length cortex. recort f surf cortex ! (cortex ! i) = f ! i) \<and>
         (\<forall>v<length (fst surf). v \<notin> set cortex \<longrightarrow> recort f surf cortex ! v = 0) \<and>
         (\<forall>out. dist_calc geo surf cortex source_nodes = Inr out \<longrightarrow>
            (\<exists>data. length data = length cortex \<and> out = recort data surf cortex)) \<and>
         (\<forall>zone. zone_calc geo argsort surf cortex seeds = Inr zone \<longrightarrow>
            (\<exists>data. length data = length cortex \<and> zone = recort data surf cortex))"
proof -
  have "\<exists>data. length data = length cortex \<and> zone = recort data surf cortex"
    if "zone_calc geo argsort surf cortex seeds = Inr zone" for zone
  proof -
    from zone_calc_Inr [OF that] obtain data :: "nat list" where
      "length data = length cortex" "zone = recort data surf cortex"
      by (metis (no_types, lifting) length_map length_upt minus_nat.diff_0)
    then show ?thesis by blast
  qed
  then show ?thesis
    using assms
    by (simp add: length_recort recort_outside recort_inside valid_mask_def dist_calc_Inr)
qed

theorem recort_projection_witness:
  "valid_mask (length (fst tri_surf)) tri_cortex \<and>
   length (recort [0, 6, 5 :: real] tri_surf tri_cortex) = 4 \<and>
   recort [0, 6, 5 :: real] tri_surf tri_cortex ! 0 = 0 \<and>
   recort [0, 6, 5 :: real] tri_surf tri_cortex ! 2 = 6 \<and>
   recort [0, 6, 5 :: real] tri_surf tri_cortex ! 3 = 5 \<and>
   recort [0, 6, 5 :: real] tri_surf tri_cortex ! 1 = 0 \<and>
   dist_calc tri_geo tri_surf tri_cortex [0] = Inr (recort [0, 6, 5] tri_surf tri_cortex)"
proof -
  have l: "length [0, 6, 5 :: real] = length tri_cortex"
    by (simp add: tri_cortex_def)
  note r = recort_projection [OF valid_tri l, of tri_geo "[0]" argsort_stable "[[0], [2]]"]
  from r have n: "length (recort [0, 6, 5 :: real] tri_surf tri_cortex) = 4"
    by (simp add: tri_surf_def)
  from r have i: "\<forall>i<length tri_cortex.
      recort [0, 6, 5 :: real] tri_surf tri_cortex ! (tri_cortex ! i) = [0, 6, 5] ! i"
    by blast
  from r have o: "\<forall>v<length (fst tri_surf). v \<notin> set tri_cortex \<longrightarrow>
      recort [0, 6, 5 :: real] tri_surf tri_cortex ! v = 0"
    by blast
  from i [rule_format, of 0] i [rule_format, of 1] i [rule_format, of 2]
  have "recort [0, 6, 5 :: real] tri_surf tri_cortex ! 0 = 0"
    "recort [0, 6, 5 :: real] tri_surf tri_cortex ! 2 = 6"
    "recort [0, 6, 5 :: real] tri_surf tri_cortex ! 3 = 5"
    by (simp_all add: tri_cortex_def)
  moreover from o [rule_format, of 1]
  have "recort [0, 6, 5 :: real] tri_surf tri_cortex ! 1 = 0"
    by (simp add: tri_cortex_def tri_surf_def)
  moreover have "dist_calc tri_geo tri_surf tri_cortex [0]
      = Inr (recort [0, 6, 5] tri_surf tri_cortex)"
    by (simp add: dist_calc_tri_0) (simp add: recort_def tri_cortex_def tri_surf_def)
  ultimately show ?thesis using valid_tri n by simp
qed

text \<open>
  Claim C7. A source node set with an index that is not in the mask is refused with
  \<^verbatim>\<open>OutOfCortexError\<close> by the translation, and so by \<^verbatim>\<open>dist_calc\<close>, by \<^verbatim>\<open>zone_calc\<close> when
  it is one of the seed sets, and by \<^verbatim>\<open>dist_calc_matrix\<close> when it is the vertex set of a
  retained region (on a valid mask, which is checked first). (The translation is the
  spec's model of the helper \<^verbatim>\<open>translate_src\<close>.)
\<close>

theorem out_of_cortex_source_rejected:
  assumes "v \<in> set source_nodes" "v \<notin> set cortex"
  shows "translate_src source_nodes cortex = Inl OutOfCortexError \<and>
         (valid_mask (length (fst surf)) cortex \<longrightarrow>
            dist_calc geo surf cortex source_nodes = Inl OutOfCortexError \<and>
            (source_nodes \<in> set seeds \<longrightarrow>
               zone_calc geo argsort surf cortex seeds = Inl OutOfCortexError) \<and>
            (roi \<in> set (get_freesurfer_label labels) \<and> roi \<notin> set exceptions \<and>
             load_freesurfer_label labels roi = source_nodes \<longrightarrow>
               dist_calc_matrix geo surf cortex labels (Some exceptions) = Inl OutOfCortexError))"
proof -
  have t: "translate_src source_nodes cortex = Inl OutOfCortexError"
    using assms by (rule translate_src_out)
  have z: "zone_calc geo argsort surf cortex seeds = Inl OutOfCortexError"
    if "valid_mask (length (fst surf)) cortex" "source_nodes \<in> set seeds"
    using that dist_rows_out [OF that(2) assms]
    by (simp add: zone_calc_def surf_keep_cortex_valid)
  have m: "dist_calc_matrix geo surf cortex labels (Some exceptions) = Inl OutOfCortexError"
    if "valid_mask (length (fst surf)) cortex" "roi \<in> set (get_freesurfer_label labels)"
      "roi \<notin> set exceptions" "load_freesurfer_label labels roi = source_nodes"
    using dist_calc_matrix_out [OF that(1,2,3), of v geo] that(4) assms by simp
  show ?thesis
    using t z m by (simp add: dist_calc_def surf_keep_cortex_valid)
qed

theorem out_of_cortex_source_rejected_witness:
  "translate_src [0, 1] tri_cortex = Inl OutOfCortexError \<and>
   dist_calc tri_geo tri_surf tri_cortex [0, 1] = Inl OutOfCortexError \<and>
   zone_calc tri_geo argsort_stable tri_surf tri_cortex [[2], [0, 1]] = Inl OutOfCortexError \<and>
   dist_calc_matrix tri_geo tri_surf tri_cortex
     \<lparr>names = [''A'', ''B''], members = (\<lambda>name. if name = ''A'' then [2] else [0, 1])\<rparr>
     (Some [''Unknown'']) = Inl OutOfCortexError"
  using valid_tri
    out_of_cortex_source_rejected [of 1 "[0, 1]" tri_cortex tri_surf tri_geo "[[2], [0, 1]]"
      argsort_stable "''B''"
      "\<lparr>names = [''A'', ''B''], members = (\<lambda>name. if name = ''A'' then [2] else [0, 1])\<rparr>"
      "[''Unknown'']"]
  by (simp add: tri_cortex_def get_freesurfer_label_def load_freesurfer_label_def)

text \<open>
  Claim C8. A mask that is empty, has a duplicate or an out-of-range index, or is not
  sorted is refused with \<^verbatim>\<open>InvalidMaskError\<close> by the restriction to the cortex, and so by
  each of \<^verbatim>\<open>dist_calc\<close>, \<^verbatim>\<open>dist_calc_pairwise\<close>, \<^verbatim>\<open>zone_calc\<close> and \<^verbatim>\<open>dist_calc_matrix\<close>,
  which restrict the surface first. (The restriction is the spec's model of the helper.)
\<close>

theorem invalid_mask_rejected:
  assumes "cortex = [] \<or> \<not> distinct cortex \<or> (\<exists>v\<in>set cortex. length (fst surf) \<le> v) \<or>
           \<not> sorted cortex"
  shows "surf_keep_cortex surf cortex = Inl InvalidMaskError \<and>
         dist_calc geo surf cortex source_nodes = Inl InvalidMaskError \<and>
         dist_calc_pairwise local_gdist_matrix float32 surf cortex maxdist = Inl InvalidMaskError \<and>
         zone_calc geo argsort surf cortex seeds = Inl InvalidMaskError \<and>
         dist_calc_matrix geo surf cortex labels exceptions_arg = Inl InvalidMaskError"
  using not_valid_mask [OF assms]
  by (simp add: surf_keep_cortex_invalid dist_calc_invalid dist_calc_pairwise_invalid
      zone_calc_invalid dist_calc_matrix_invalid)

theorem invalid_mask_rejected_witness:
  "surf_keep_cortex tri_surf [0, 3, 2] = Inl InvalidMaskError \<and>
   dist_calc tri_geo tri_surf [0, 3, 2] [0] = Inl InvalidMaskError \<and>
   dist_calc_pairwise (\<lambda>V T d. \<lparr>shape = (3, 3), entries = []\<rparr>) id tri_surf [0, 3, 2] 1
     = Inl InvalidMaskError \<and>
   zone_calc tri_geo argsort_stable tri_surf [0, 3, 2] [[0], [2]] = Inl InvalidMaskError \<and>
   dist_calc_matrix tri_geo tri_surf [0, 3, 2] tri_labels None = Inl InvalidMaskError"
  using invalid_mask_rejected [of "[0, 3, 2]" tri_surf tri_geo "[0]"
      "\<lambda>V T d. \<lparr>shape = (3, 3), entries = []\<rparr>" id 1 argsort_stable "[[0], [2]]" tri_labels None]
  by simp

end
